theory Spec2Isabelle
  imports Main
begin

section \<open>Data model of \<open>ast.ts\<close>\<close>

text \<open>
  The objects of \<open>ast.ts\<close> are flat: an \<open>Expr\<close> is its kind-specific fields together
  with \<open>span\<close> and the optional \<open>ty\<close>. Each kind is a constructor that carries the
  kind's own fields in the order of the type declaration, then \<open>span\<close>, then \<open>ty\<close>.
  An optional field (\<open>res?\<close>, \<open>ty?\<close>, \<open>type?\<close>, \<open>else?\<close>, \<open>returnType?\<close>) is an
  \<open>option\<close>. Source positions and indices are natural numbers.
\<close>

record Span =
  start :: nat
  end' :: nat

datatype Resolution =
    ResLocal nat
  | ResItem nat
  | ResBuiltin string

record Identifier =
  name :: string
  span :: Span
  res :: "Resolution option"

datatype Ty =
    TyString
  | TyInt
  | TyBool
  | TyList Ty
  | TyTuple "Ty list"
  | TyFn "Ty list" Ty
  | TyVar nat

text \<open>\<open>TyUnit\<close> is the tuple type whose element list is empty.\<close>

definition TyUnit :: Ty where
  "TyUnit = TyTuple []"

text \<open>\<open>ty.kind === "tuple" && ty.elems.length === 0\<close>\<close>

fun tyIsUnit :: "Ty \<Rightarrow> bool" where
  "tyIsUnit (TyTuple elems) = (length elems = 0)"
| "tyIsUnit _ = False"

datatype Literal =
    LitStr string
  | LitInt int

text \<open>
  \<open>BinaryKind\<close> is the union of the twelve operator strings
  \<open>+ - * / & | < > == <= >= !=\<close>, in the order of the type declaration;
  \<open>UnaryKind\<close> is \<open>!\<close> or \<open>-\<close>.
\<close>

datatype BinaryKind = Add | Sub | Mul | Div | And | Or | Lt | Gt | Eq | Le | Ge | Ne

datatype UnaryKind = Not | Neg

definition COMPARISON_KINDS :: "BinaryKind list" where
  "COMPARISON_KINDS = [Gt, Lt, Eq, Le, Ge, Ne]"

definition EQUALITY_KINDS :: "BinaryKind list" where
  "EQUALITY_KINDS = [Eq, Ne]"

definition LOGICAL_KINDS :: "BinaryKind list" where
  "LOGICAL_KINDS = [And, Or]"

definition ARITH_TERM_KINDS :: "BinaryKind list" where
  "ARITH_TERM_KINDS = [Add, Sub]"

definition ARITH_FACTOR_KINDS :: "BinaryKind list" where
  "ARITH_FACTOR_KINDS = [Mul, Div]"

text \<open>The operator as it is written, for messages and for the printer.\<close>

fun binaryKind_str :: "BinaryKind \<Rightarrow> string" where
  "binaryKind_str Add = ''+''"
| "binaryKind_str Sub = ''-''"
| "binaryKind_str Mul = ''*''"
| "binaryKind_str Div = ''/''"
| "binaryKind_str And = ''&''"
| "binaryKind_str Or = ''|''"
| "binaryKind_str Lt = ''<''"
| "binaryKind_str Gt = ''>''"
| "binaryKind_str Eq = ''==''"
| "binaryKind_str Le = ''<=''"
| "binaryKind_str Ge = ''>=''"
| "binaryKind_str Ne = ''!=''"

fun unaryKind_str :: "UnaryKind \<Rightarrow> string" where
  "unaryKind_str Not = ''!''"
| "unaryKind_str Neg = ''-''"

text \<open>
  \<open>BINARY_KIND_PREC_CLASS\<close> is a \<open>Map\<close> built from a list of pairs; \<open>get\<close> is the
  lookup, \<open>undefined\<close> for a missing key being \<open>None\<close>.
\<close>

definition BINARY_KIND_PREC_CLASS_entries :: "(BinaryKind \<times> nat) list" where
  "BINARY_KIND_PREC_CLASS_entries =
     [(Add, 0), (Sub, 0), (Mul, 0), (Div, 0), (And, 1), (Or, 2),
      (Lt, 3), (Gt, 4), (Eq, 5), (Le, 6), (Ge, 7), (Ne, 8)]"

definition BINARY_KIND_PREC_CLASS :: "BinaryKind \<rightharpoonup> nat" where
  "BINARY_KIND_PREC_CLASS = map_of BINARY_KIND_PREC_CLASS_entries"

datatype error = Error string

text \<open>
  \<open>if (!cls) throw new Error(...)\<close>: the negation of a \<open>number | undefined\<close> is true
  for \<open>undefined\<close> and for the number \<open>0\<close>.
\<close>

definition binaryExprPrecedenceClass :: "BinaryKind \<Rightarrow> error + nat" where
  "binaryExprPrecedenceClass k =
     (let cls = BINARY_KIND_PREC_CLASS k in
      if (case cls of None \<Rightarrow> True | Some n \<Rightarrow> n = 0)
      then Inl (Error (''Invalid binary kind: '' @ binaryKind_str k))
      else Inr (the cls))"

datatype Type =
    TypeIdent Identifier Span "Ty option"
  | TypeList Type Span "Ty option"
  | TypeTuple "Type list" Span "Ty option"

datatype Expr =
    ExprEmpty Span "Ty option"
  | ExprLet string "Type option" Expr Expr Span "Ty option"
  | ExprBlock "Expr list" Span "Ty option"
  | ExprLiteral Literal Span "Ty option"
  | ExprIdent Identifier Span "Ty option"
  | ExprBinary BinaryKind Expr Expr Span "Ty option"
  | ExprUnary UnaryKind Expr Span "Ty option"
  | ExprCall Expr "Expr list" Span "Ty option"
  | ExprIf Expr Expr "Expr option" Span "Ty option"

record FunctionArg =
  arg_name :: string
  arg_type :: Type
  arg_span :: Span

record FunctionDef =
  fn_name :: string
  args :: "FunctionArg list"
  body :: Expr
  returnType :: "Type option"

text \<open>An item is of the one kind \<open>function\<close>: its \<open>node\<close>, its \<open>span\<close> and its \<open>id\<close>.\<close>

datatype Item = ItemFunction FunctionDef Span nat

type_synonym Ast = "Item list"

section \<open>Folders\<close>

text \<open>
  A \<open>Folder\<close> is an object of four handlers, \<open>FoldFn<T> = (value: T) => T\<close>. A handler
  is a function from nodes to nodes; the field \<open>type\<close> is written \<open>type'\<close>.
\<close>

record Folder =
  item :: "Item \<Rightarrow> Item"
  expr :: "Expr \<Rightarrow> Expr"
  ident :: "Identifier \<Rightarrow> Identifier"
  type' :: "Type \<Rightarrow> Type"

text \<open>
  The structural defaults build a new object from the fields they name. None of them
  names \<open>ty\<close>, so the new node has none. \<open>x && f(x)\<close> on an optional object \<open>x\<close> is
  \<open>f(x)\<close> when \<open>x\<close> is there and absent otherwise.
\<close>

fun superFoldItem :: "Item \<Rightarrow> Folder \<Rightarrow> Item" where
  "superFoldItem (ItemFunction node sp n) folder =
     (let args' = map (\<lambda>a. \<lparr>arg_name = arg_name a, arg_type = type' folder (arg_type a),
                               arg_span = arg_span a\<rparr>) (args node)
      in ItemFunction
           \<lparr>fn_name = fn_name node,
            args = args',
            body = expr folder (body node),
            returnType = map_option (type' folder) (returnType node)\<rparr>
           sp n)"

fun superFoldExpr :: "Expr \<Rightarrow> Folder \<Rightarrow> Expr" where
  "superFoldExpr (ExprEmpty sp ty) folder = ExprEmpty sp None"
| "superFoldExpr (ExprLet n t rhs after sp ty) folder =
     ExprLet n (map_option (type' folder) t) (expr folder rhs) (expr folder after) sp None"
| "superFoldExpr (ExprBlock exprs sp ty) folder =
     ExprBlock (map (\<lambda>e. expr folder e) exprs) sp None"
| "superFoldExpr (ExprLiteral v sp ty) folder = ExprLiteral v sp None"
| "superFoldExpr (ExprIdent v sp ty) folder = ExprIdent (ident folder v) sp None"
| "superFoldExpr (ExprBinary k lhs rhs sp ty) folder =
     ExprBinary k (expr folder lhs) (expr folder rhs) sp None"
| "superFoldExpr (ExprUnary k rhs sp ty) folder = ExprUnary k (expr folder rhs) sp None"
| "superFoldExpr (ExprCall lhs as sp ty) folder =
     ExprCall (expr folder lhs) (map (\<lambda>e. expr folder e) as) sp None"
| "superFoldExpr (ExprIf c t e sp ty) folder =
     ExprIf (expr folder c) (expr folder t) (map_option (expr folder) e) sp None"

fun superFoldType :: "Type \<Rightarrow> Folder \<Rightarrow> Type" where
  "superFoldType (TypeIdent v sp ty) folder = TypeIdent (ident folder v) sp None"
| "superFoldType (TypeList elem sp ty) folder = TypeList (type' folder elem) sp None"
| "superFoldType (TypeTuple elems sp ty) folder =
     TypeTuple (map (\<lambda>t. type' folder t) elems) sp None"

definition fold_ast :: "Ast \<Rightarrow> Folder \<Rightarrow> Ast" where
  "fold_ast ast folder = map (\<lambda>i. item folder i) ast"

subsection \<open>The default folder\<close>

text \<open>
  The handlers of \<open>DEFAULT_FOLDER\<close> call the structural defaults with \<open>this\<close>, which
  is \<open>DEFAULT_FOLDER\<close> itself when the handlers are called on it, as \<open>fold_ast\<close> and
  the structural defaults do. The three handlers are therefore recursive through the
  folder they are fields of. The recursion is well founded because a structural
  default applies the handlers to the children of its node only, which is what the
  three congruence rules say.
\<close>

fun type_children :: "Type \<Rightarrow> Type list" where
  "type_children (TypeIdent v sp ty) = []"
| "type_children (TypeList elem sp ty) = [elem]"
| "type_children (TypeTuple elems sp ty) = elems"

fun expr_children :: "Expr \<Rightarrow> Expr list" where
  "expr_children (ExprEmpty sp ty) = []"
| "expr_children (ExprLet n t rhs after sp ty) = [rhs, after]"
| "expr_children (ExprBlock exprs sp ty) = exprs"
| "expr_children (ExprLiteral v sp ty) = []"
| "expr_children (ExprIdent v sp ty) = []"
| "expr_children (ExprBinary k lhs rhs sp ty) = [lhs, rhs]"
| "expr_children (ExprUnary k rhs sp ty) = [rhs]"
| "expr_children (ExprCall lhs as sp ty) = lhs # as"
| "expr_children (ExprIf c t e sp ty) = c # t # (case e of None \<Rightarrow> [] | Some x \<Rightarrow> [x])"

fun expr_types :: "Expr \<Rightarrow> Type list" where
  "expr_types (ExprLet n t rhs after sp ty) = (case t of None \<Rightarrow> [] | Some x \<Rightarrow> [x])"
| "expr_types _ = []"

fun item_types :: "Item \<Rightarrow> Type list" where
  "item_types (ItemFunction node sp n) =
     map arg_type (args node) @ (case returnType node of None \<Rightarrow> [] | Some t \<Rightarrow> [t])"

fun item_exprs :: "Item \<Rightarrow> Expr list" where
  "item_exprs (ItemFunction node sp n) = [body node]"

lemma superFoldType_cong [fundef_cong]:
  "t = t' \<Longrightarrow> fd = fd' \<Longrightarrow> (\<And>x. x \<in> set (type_children t') \<Longrightarrow> ft x = ft' x) \<Longrightarrow>
   superFoldType t \<lparr>item = fi, expr = fe, ident = fd, type' = ft\<rparr>
   = superFoldType t' \<lparr>item = fi', expr = fe', ident = fd', type' = ft'\<rparr>"
  by (cases t') auto

lemma superFoldExpr_cong [fundef_cong]:
  "e = e' \<Longrightarrow> fd = fd' \<Longrightarrow> (\<And>x. x \<in> set (expr_children e') \<Longrightarrow> fe x = fe' x) \<Longrightarrow>
   (\<And>x. x \<in> set (expr_types e') \<Longrightarrow> ft x = ft' x) \<Longrightarrow>
   superFoldExpr e \<lparr>item = fi, expr = fe, ident = fd, type' = ft\<rparr>
   = superFoldExpr e' \<lparr>item = fi', expr = fe', ident = fd', type' = ft'\<rparr>"
  by (cases e') (auto intro!: option.map_cong)

lemma superFoldItem_cong [fundef_cong]:
  "i = i' \<Longrightarrow> (\<And>x. x \<in> set (item_exprs i') \<Longrightarrow> fe x = fe' x) \<Longrightarrow>
   (\<And>x. x \<in> set (item_types i') \<Longrightarrow> ft x = ft' x) \<Longrightarrow>
   superFoldItem i \<lparr>item = fi, expr = fe, ident = fd, type' = ft\<rparr>
   = superFoldItem i' \<lparr>item = fi', expr = fe', ident = fd', type' = ft'\<rparr>"
  by (cases i') (auto intro!: option.map_cong)

lemma size_list_member: "x \<in> set xs \<Longrightarrow> size x \<le> size_list size xs"
  by (induction xs) auto

function default_item :: "Item \<Rightarrow> Item"
  and default_expr :: "Expr \<Rightarrow> Expr"
  and default_type :: "Type \<Rightarrow> Type" where
  "default_item i = superFoldItem i
     \<lparr>item = default_item, expr = default_expr, ident = (\<lambda>ident. ident), type' = default_type\<rparr>"
| "default_expr e = superFoldExpr e
     \<lparr>item = default_item, expr = default_expr, ident = (\<lambda>ident. ident), type' = default_type\<rparr>"
| "default_type t = superFoldType t
     \<lparr>item = default_item, expr = default_expr, ident = (\<lambda>ident. ident), type' = default_type\<rparr>"
  by pat_completeness auto
termination
proof (relation "inv_image (less_than <*lex*> less_than)
    (\<lambda>x. case x of Inl i \<Rightarrow> (2::nat, 0::nat) | Inr (Inl e) \<Rightarrow> (1, size e)
                   | Inr (Inr t) \<Rightarrow> (0, size t))", goal_cases)
  case 1
  show ?case by (intro wf_inv_image wf_lex_prod wf_less_than)
next
  case (2 i x)
  show ?case by simp
next
  case (3 i x)
  show ?case by simp
next
  case (4 e x)
  then show ?case
    by (cases e) (auto simp: less_Suc_eq_le dest: size_list_member split: option.splits)
next
  case (5 e x)
  show ?case by simp
next
  case (6 t x)
  then show ?case
    by (cases t) (auto simp: less_Suc_eq_le dest: size_list_member)
qed

declare default_item.simps [simp del] default_expr.simps [simp del] default_type.simps [simp del]

definition DEFAULT_FOLDER :: Folder where
  "DEFAULT_FOLDER =
     \<lparr>item = default_item, expr = default_expr, ident = (\<lambda>ident. ident), type' = default_type\<rparr>"

text \<open>The handlers of \<open>DEFAULT_FOLDER\<close>, as the source writes them.\<close>

lemma DEFAULT_FOLDER_handlers:
  "item DEFAULT_FOLDER i = superFoldItem i DEFAULT_FOLDER"
  "expr DEFAULT_FOLDER e = superFoldExpr e DEFAULT_FOLDER"
  "ident DEFAULT_FOLDER d = d"
  "type' DEFAULT_FOLDER t = superFoldType t DEFAULT_FOLDER"
  by (simp_all add: DEFAULT_FOLDER_def default_item.simps default_expr.simps default_type.simps)

text \<open>The handlers of the default folder, node kind by node kind.\<close>

lemma default_type_kinds [simp]:
  "default_type (TypeIdent v sp ty) = TypeIdent v sp None"
  "default_type (TypeList elem sp ty) = TypeList (default_type elem) sp None"
  "default_type (TypeTuple elems sp ty) = TypeTuple (map default_type elems) sp None"
  by (simp_all add: default_type.simps)

lemma default_expr_kinds [simp]:
  "default_expr (ExprEmpty sp ty) = ExprEmpty sp None"
  "default_expr (ExprLet n t rhs after sp ty) =
     ExprLet n (map_option default_type t) (default_expr rhs) (default_expr after) sp None"
  "default_expr (ExprBlock exprs sp ty) = ExprBlock (map default_expr exprs) sp None"
  "default_expr (ExprLiteral l sp ty) = ExprLiteral l sp None"
  "default_expr (ExprIdent v sp ty) = ExprIdent v sp None"
  "default_expr (ExprBinary k lhs rhs sp ty) =
     ExprBinary k (default_expr lhs) (default_expr rhs) sp None"
  "default_expr (ExprUnary u rhs sp ty) = ExprUnary u (default_expr rhs) sp None"
  "default_expr (ExprCall lhs as sp ty) =
     ExprCall (default_expr lhs) (map default_expr as) sp None"
  "default_expr (ExprIf c th el sp ty) =
     ExprIf (default_expr c) (default_expr th) (map_option default_expr el) sp None"
  by (simp_all add: default_expr.simps)

lemma default_item_kinds [simp]:
  "default_item (ItemFunction node sp n) =
     ItemFunction
       \<lparr>fn_name = fn_name node,
        args = map (\<lambda>a. \<lparr>arg_name = arg_name a, arg_type = default_type (arg_type a),
                          arg_span = arg_span a\<rparr>) (args node),
        body = default_expr (body node),
        returnType = map_option default_type (returnType node)\<rparr>
       sp n"
  by (simp add: default_item.simps)

subsection \<open>Reading a node\<close>

text \<open>
  The fields of a node that are not subtrees, and its subtrees: \<open>expr_children\<close>,
  \<open>expr_types\<close>, \<open>item_exprs\<close> and \<open>item_types\<close> above list the children that the
  structural defaults hand to the \<open>expr\<close> and \<open>type\<close> handlers.
\<close>

fun expr_kind :: "Expr \<Rightarrow> string" where
  "expr_kind (ExprEmpty sp ty) = ''empty''"
| "expr_kind (ExprLet n t rhs after sp ty) = ''let''"
| "expr_kind (ExprBlock exprs sp ty) = ''block''"
| "expr_kind (ExprLiteral v sp ty) = ''literal''"
| "expr_kind (ExprIdent v sp ty) = ''ident''"
| "expr_kind (ExprBinary k lhs rhs sp ty) = ''binary''"
| "expr_kind (ExprUnary k rhs sp ty) = ''unary''"
| "expr_kind (ExprCall lhs as sp ty) = ''call''"
| "expr_kind (ExprIf c t e sp ty) = ''if''"

fun expr_span :: "Expr \<Rightarrow> Span" where
  "expr_span (ExprEmpty sp ty) = sp"
| "expr_span (ExprLet n t rhs after sp ty) = sp"
| "expr_span (ExprBlock exprs sp ty) = sp"
| "expr_span (ExprLiteral v sp ty) = sp"
| "expr_span (ExprIdent v sp ty) = sp"
| "expr_span (ExprBinary k lhs rhs sp ty) = sp"
| "expr_span (ExprUnary k rhs sp ty) = sp"
| "expr_span (ExprCall lhs as sp ty) = sp"
| "expr_span (ExprIf c t e sp ty) = sp"

fun expr_value :: "Expr \<Rightarrow> Literal option" where
  "expr_value (ExprLiteral v sp ty) = Some v"
| "expr_value _ = None"

fun expr_ident :: "Expr \<Rightarrow> Identifier option" where
  "expr_ident (ExprIdent v sp ty) = Some v"
| "expr_ident _ = None"

fun expr_binaryKind :: "Expr \<Rightarrow> BinaryKind option" where
  "expr_binaryKind (ExprBinary k lhs rhs sp ty) = Some k"
| "expr_binaryKind _ = None"

fun expr_unaryKind :: "Expr \<Rightarrow> UnaryKind option" where
  "expr_unaryKind (ExprUnary k rhs sp ty) = Some k"
| "expr_unaryKind _ = None"

fun expr_name :: "Expr \<Rightarrow> string option" where
  "expr_name (ExprLet n t rhs after sp ty) = Some n"
| "expr_name _ = None"

fun item_node :: "Item \<Rightarrow> FunctionDef" where
  "item_node (ItemFunction node sp n) = node"

fun item_span :: "Item \<Rightarrow> Span" where
  "item_span (ItemFunction node sp n) = sp"

fun item_id :: "Item \<Rightarrow> nat" where
  "item_id (ItemFunction node sp n) = n"


fun expr_ty :: "Expr \<Rightarrow> Ty option" where
  "expr_ty (ExprEmpty sp ty) = ty"
| "expr_ty (ExprLet n t rhs after sp ty) = ty"
| "expr_ty (ExprBlock exprs sp ty) = ty"
| "expr_ty (ExprLiteral v sp ty) = ty"
| "expr_ty (ExprIdent v sp ty) = ty"
| "expr_ty (ExprBinary k lhs rhs sp ty) = ty"
| "expr_ty (ExprUnary k rhs sp ty) = ty"
| "expr_ty (ExprCall lhs as sp ty) = ty"
| "expr_ty (ExprIf c t e sp ty) = ty"

text \<open>
  What a structural default does to a node, field by field. \<open>expr_frame folder e e'\<close>:
  the node \<open>e'\<close> has the kind, the span, the literal value, the operators and the let
  name of \<open>e\<close>; its subtrees are the results of the handlers of \<open>folder\<close> on the
  subtrees of \<open>e\<close>; and it has no \<open>ty\<close>. \<open>item_frame folder i i'\<close>: the item \<open>i'\<close> has
  the span, the id, the function name and the argument names and spans of \<open>i\<close>, and
  its body and written types are the results of the handlers.
\<close>

definition expr_frame :: "Folder \<Rightarrow> Expr \<Rightarrow> Expr \<Rightarrow> bool" where
  "expr_frame folder e e' \<longleftrightarrow>
     expr_kind e' = expr_kind e
     \<and> expr_span e' = expr_span e
     \<and> expr_value e' = expr_value e
     \<and> expr_binaryKind e' = expr_binaryKind e
     \<and> expr_unaryKind e' = expr_unaryKind e
     \<and> expr_name e' = expr_name e
     \<and> expr_children e' = map (expr folder) (expr_children e)
     \<and> expr_types e' = map (type' folder) (expr_types e)
     \<and> expr_ident e' = map_option (ident folder) (expr_ident e)
     \<and> expr_ty e' = None"

definition item_frame :: "Folder \<Rightarrow> Item \<Rightarrow> Item \<Rightarrow> bool" where
  "item_frame folder i i' \<longleftrightarrow>
     item_span i' = item_span i
     \<and> item_id i' = item_id i
     \<and> fn_name (item_node i') = fn_name (item_node i)
     \<and> map arg_name (args (item_node i')) = map arg_name (args (item_node i))
     \<and> map arg_span (args (item_node i')) = map arg_span (args (item_node i))
     \<and> item_exprs i' = map (expr folder) (item_exprs i)
     \<and> item_types i' = map (type' folder) (item_types i)"

text \<open>A tree without semantic-type annotations: \<open>ty\<close> is absent at every node.\<close>

fun type_no_ty :: "Type \<Rightarrow> bool" where
  "type_no_ty (TypeIdent v sp ty) = (ty = None)"
| "type_no_ty (TypeList elem sp ty) = (ty = None \<and> type_no_ty elem)"
| "type_no_ty (TypeTuple elems sp ty) = (ty = None \<and> list_all type_no_ty elems)"

fun expr_no_ty :: "Expr \<Rightarrow> bool" where
  "expr_no_ty (ExprEmpty sp ty) = (ty = None)"
| "expr_no_ty (ExprLet n t rhs after sp ty) =
     (ty = None \<and> (case t of None \<Rightarrow> True | Some x \<Rightarrow> type_no_ty x)
      \<and> expr_no_ty rhs \<and> expr_no_ty after)"
| "expr_no_ty (ExprBlock exprs sp ty) = (ty = None \<and> list_all expr_no_ty exprs)"
| "expr_no_ty (ExprLiteral v sp ty) = (ty = None)"
| "expr_no_ty (ExprIdent v sp ty) = (ty = None)"
| "expr_no_ty (ExprBinary k lhs rhs sp ty) = (ty = None \<and> expr_no_ty lhs \<and> expr_no_ty rhs)"
| "expr_no_ty (ExprUnary k rhs sp ty) = (ty = None \<and> expr_no_ty rhs)"
| "expr_no_ty (ExprCall lhs as sp ty) =
     (ty = None \<and> expr_no_ty lhs \<and> list_all expr_no_ty as)"
| "expr_no_ty (ExprIf c t e sp ty) =
     (ty = None \<and> expr_no_ty c \<and> expr_no_ty t
      \<and> (case e of None \<Rightarrow> True | Some x \<Rightarrow> expr_no_ty x))"

fun item_no_ty :: "Item \<Rightarrow> bool" where
  "item_no_ty (ItemFunction node sp n) =
     (list_all (\<lambda>a. type_no_ty (arg_type a)) (args node) \<and> expr_no_ty (body node)
      \<and> (case returnType node of None \<Rightarrow> True | Some t \<Rightarrow> type_no_ty t))"

text \<open>
  A tree with its semantic-type annotations erased: the same tree, node by node and
  field by field, with \<open>ty\<close> absent at every expression and type node.
\<close>

fun erase_type :: "Type \<Rightarrow> Type" where
  "erase_type (TypeIdent v sp ty) = TypeIdent v sp None"
| "erase_type (TypeList elem sp ty) = TypeList (erase_type elem) sp None"
| "erase_type (TypeTuple elems sp ty) = TypeTuple (map erase_type elems) sp None"

fun erase_expr :: "Expr \<Rightarrow> Expr" where
  "erase_expr (ExprEmpty sp ty) = ExprEmpty sp None"
| "erase_expr (ExprLet n t rhs after sp ty) =
     ExprLet n (map_option erase_type t) (erase_expr rhs) (erase_expr after) sp None"
| "erase_expr (ExprBlock exprs sp ty) = ExprBlock (map erase_expr exprs) sp None"
| "erase_expr (ExprLiteral v sp ty) = ExprLiteral v sp None"
| "erase_expr (ExprIdent v sp ty) = ExprIdent v sp None"
| "erase_expr (ExprBinary k lhs rhs sp ty) =
     ExprBinary k (erase_expr lhs) (erase_expr rhs) sp None"
| "erase_expr (ExprUnary k rhs sp ty) = ExprUnary k (erase_expr rhs) sp None"
| "erase_expr (ExprCall lhs as sp ty) = ExprCall (erase_expr lhs) (map erase_expr as) sp None"
| "erase_expr (ExprIf c th el sp ty) =
     ExprIf (erase_expr c) (erase_expr th) (map_option erase_expr el) sp None"

fun erase_item :: "Item \<Rightarrow> Item" where
  "erase_item (ItemFunction node sp n) =
     ItemFunction
       (node\<lparr>args := map (\<lambda>a. a\<lparr>arg_type := erase_type (arg_type a)\<rparr>) (args node),
              body := erase_expr (body node),
              returnType := map_option erase_type (returnType node)\<rparr>)
       sp n"

section \<open>The printer of \<open>printer.ts\<close>\<close>

text \<open>
  Strings are lists of characters and \<open>s.length\<close> is the length of the list.
  \<open>join\<close> is \<open>Array.prototype.join\<close>. A template literal renders a number that is a
  natural number in decimal (\<open>showNat\<close>), a negative integer with a minus sign in
  front (\<open>showInt\<close>).
\<close>

fun join :: "string \<Rightarrow> string list \<Rightarrow> string" where
  "join sep [] = []"
| "join sep [x] = x"
| "join sep (x # y # ys) = x @ sep @ join sep (y # ys)"

definition digit_char :: "nat \<Rightarrow> char" where
  "digit_char d = ''0123456789'' ! d"

fun showNat :: "nat \<Rightarrow> string" where
  "showNat n = (if n < 10 then [digit_char n] else showNat (n div 10) @ [digit_char (n mod 10)])"

declare showNat.simps [simp del]

definition showInt :: "int \<Rightarrow> string" where
  "showInt i = (if i < 0 then ''-'' @ showNat (nat (- i)) else showNat (nat i))"

text \<open>\<open>printRes\<close> is the local function of \<open>printIdent\<close>.\<close>

fun printRes :: "Resolution \<Rightarrow> string" where
  "printRes (ResLocal index) = ''#'' @ showNat index"
| "printRes (ResItem index) = ''#G'' @ showNat index"
| "printRes (ResBuiltin n) = ''#B''"

definition printIdent :: "Identifier \<Rightarrow> string" where
  "printIdent idn =
     (let r = (case res idn of Some r \<Rightarrow> printRes r | None \<Rightarrow> '''')
      in name idn @ r)"

fun printType :: "Type \<Rightarrow> string" where
  "printType (TypeIdent v sp ty) = printIdent v"
| "printType (TypeList elem sp ty) = ''['' @ printType elem @ '']''"
| "printType (TypeTuple elems sp ty) = ''('' @ join '', '' (map printType elems) @ '')''"

fun printTy :: "Ty \<Rightarrow> string" where
  "printTy TyString = ''String''"
| "printTy TyInt = ''Int''"
| "printTy TyBool = ''Bool''"
| "printTy (TyList elem) = ''['' @ printTy elem @ '']''"
| "printTy (TyTuple elems) = ''('' @ join '', '' (map printTy elems) @ '')''"
| "printTy (TyFn params returnTy) =
     (let ret = (if tyIsUnit returnTy then '''' else '': '' @ printTy returnTy)
      in ''fn('' @ join '', '' (map printTy params) @ '')'' @ ret)"
| "printTy (TyVar index) = ''?'' @ showNat index"

text \<open>\<open>"  ".repeat(indent * 2)\<close>, and a line feed followed by it.\<close>

definition ind :: "nat \<Rightarrow> string" where
  "ind indent = concat (replicate (indent * 2) ''  '')"

definition linebreak :: "nat \<Rightarrow> string" where
  "linebreak indent = [CHR 0x0A] @ ind indent"

text \<open>
  \<open>expr.exprs[exprs.length - 1]?.kind === "empty"\<close>: false for the empty list, where
  the element read is \<open>undefined\<close>.
\<close>

fun is_empty_expr :: "Expr \<Rightarrow> bool" where
  "is_empty_expr (ExprEmpty sp ty) = True"
| "is_empty_expr _ = False"

fun printLiteral :: "Literal \<Rightarrow> string" where
  "printLiteral (LitStr v) = [CHR 0x22] @ v @ [CHR 0x22]"
| "printLiteral (LitInt v) = showInt v"

fun printExpr :: "Expr \<Rightarrow> nat \<Rightarrow> string" where
  "printExpr (ExprEmpty sp ty) indent = ''''"
| "printExpr (ExprLet n t rhs after sp ty) indent =
     (let type = (case t of Some t' \<Rightarrow> '': '' @ printType t' | None \<Rightarrow> '''')
      in ''let '' @ n @ type @ '' = '' @ printExpr rhs (indent + 1) @ '' in''
         @ linebreak indent @ printExpr after indent)"
| "printExpr (ExprBlock exprs sp ty) indent =
     (let exprs' = map (\<lambda>e. printExpr e (indent + 1)) exprs in
      if length exprs' = 1 then ''('' @ exprs' ! 0 @ '')''
      else
        let shortExprs = (sum_list (map length exprs') < 40);
            alreadyHasTrailingSpace = (exprs \<noteq> [] \<and> is_empty_expr (last exprs))
        in if shortExprs then
             (let trailingSpace = (if alreadyHasTrailingSpace then '''' else '' '')
              in ''( '' @ join ''; '' exprs' @ trailingSpace @ '')'')
           else
             (let joiner = '';'' @ linebreak (indent + 1)
              in ''('' @ linebreak (indent + 1) @ join joiner exprs' @ linebreak indent @ '')''))"
| "printExpr (ExprLiteral v sp ty) indent = printLiteral v"
| "printExpr (ExprIdent v sp ty) indent = printIdent v"
| "printExpr (ExprBinary k lhs rhs sp ty) indent =
     printExpr lhs indent @ '' '' @ binaryKind_str k @ '' '' @ printExpr rhs indent"
| "printExpr (ExprUnary k rhs sp ty) indent = unaryKind_str k @ printExpr rhs indent"
| "printExpr (ExprCall lhs as sp ty) indent =
     (let args' = map (\<lambda>a. printExpr a (indent + 1)) as;
          shortArgs = (sum_list (map length args') < 40)
      in if shortArgs then printExpr lhs indent @ ''('' @ join '', '' args' @ '')''
         else printExpr lhs indent @ ''('' @ linebreak (indent + 1)
              @ join (linebreak (indent + 1)) args' @ linebreak indent @ '')'')"
| "printExpr (ExprIf c t e sp ty) indent =
     (let elsePart = (case e of Some e' \<Rightarrow> '' else '' @ printExpr e' (indent + 1) | None \<Rightarrow> '''')
      in ''if '' @ printExpr c (indent + 1) @ '' then '' @ printExpr t (indent + 1) @ elsePart)"

definition printFunction :: "FunctionDef \<Rightarrow> string" where
  "printFunction func =
     (let args' = join '', '' (map (\<lambda>a. arg_name a @ '': '' @ printType (arg_type a)) (args func));
          ret = (case returnType func of Some t \<Rightarrow> '': '' @ printType t | None \<Rightarrow> '''')
      in ''function '' @ fn_name func @ ''('' @ args' @ '')'' @ ret @ '' = ''
         @ printExpr (body func) 0)"

fun printItem :: "Item \<Rightarrow> string" where
  "printItem (ItemFunction node sp n) = printFunction node"

definition printAst :: "Ast \<Rightarrow> string" where
  "printAst ast = join [CHR 0x0A] (map printItem ast)"

section \<open>Line spans of \<open>error.ts\<close>\<close>

text \<open>
  \<open>lines\<close> scans the input once. The loop variable \<open>i\<close> and the array \<open>lines\<close> (here
  \<open>ls\<close>) are the state of the loop: a line feed pushes the span \<open>{i + 1, i + 1}\<close>, any
  other character increments \<open>end\<close> of the last span in place. The array starts with
  one span and only grows, so its last element is always there. The input is the
  list of the code units of the string, \<open>input[i]\<close> its \<open>i\<close>-th one.
\<close>

function lines_loop :: "string \<Rightarrow> nat \<Rightarrow> Span list \<Rightarrow> Span list" where
  "lines_loop input i ls =
     (if i < length input then
        (if input ! i = CHR 0x0A
         then lines_loop input (i + 1) (ls @ [\<lparr>start = i + 1, end' = i + 1\<rparr>])
         else lines_loop input (i + 1)
                (ls[length ls - 1 :=
                      (ls ! (length ls - 1))\<lparr>end' := end' (ls ! (length ls - 1)) + 1\<rparr>]))
      else ls)"
  by pat_completeness auto
termination
  by (relation "measure (\<lambda>(input, i, ls). length input - i)") auto

declare lines_loop.simps [simp del]

definition lines :: "string \<Rightarrow> Span list" where
  "lines input = lines_loop input 0 [\<lparr>start = 0, end' = 0\<rparr>]"

text \<open>The invariant of the loop, for the input \<open>s\<close>, before the character at \<open>i\<close> is read.\<close>

definition lines_inv :: "string \<Rightarrow> nat \<Rightarrow> Span list \<Rightarrow> bool" where
  "lines_inv s i ls \<longleftrightarrow>
     ls \<noteq> [] \<and> i \<le> length s
     \<and> end' (last ls) = i
     \<and> start (hd ls) = 0
     \<and> length ls = Suc (length (filter (\<lambda>c. c = CHR 0x0A) (take i s)))
     \<and> (\<forall>a\<in>set ls. start a \<le> end' a \<and> end' a \<le> i)
     \<and> sorted_wrt (\<lambda>a b. end' a < start b) ls
     \<and> (\<forall>a\<in>set ls. \<forall>p. start a \<le> p \<and> p < end' a \<longrightarrow> s ! p \<noteq> CHR 0x0A)
     \<and> (\<forall>a\<in>set (butlast ls). end' a < length s \<and> s ! (end' a) = CHR 0x0A)
     \<and> (\<forall>a\<in>set ls. start a = 0 \<or> s ! (start a - 1) = CHR 0x0A)
     \<and> (\<forall>p<i. s ! p \<noteq> CHR 0x0A \<longrightarrow> (\<exists>a\<in>set ls. start a \<le> p \<and> p < end' a))"

section \<open>The resolver\<close>

text \<open>
  The source of the resolver is not among the files; \<open>ast.ts\<close> has the type
  \<open>Resolution\<close> it produces and the comment on the local index. The pass is modelled
  from section 4.2 of the specification. The stack of local names is a list with the
  innermost binding first; pushing a name on entering the continuation of a \<open>let\<close> and
  popping it on leaving is resolving the continuation with the name in front of the
  list. A failure is a value and stops the pass.
\<close>

text \<open>
  Modelled from the spec: the error of the resolver, which is not among the sources.
  "An identifier matching no local, item, or builtin produces an unresolved-name error
  carrying the identifier's span."
\<close>

datatype resolve_error = UnresolvedName string Span

text \<open>
  Modelled from the spec: the search of the resolver's local stack, which is not among
  the sources. "Search local stack innermost-first (yields a local resolution with
  index = stack distance)."
\<close>

fun localIndex :: "string list \<Rightarrow> string \<Rightarrow> nat option" where
  "localIndex [] n = None"
| "localIndex (x # xs) n = (if x = n then Some 0 else map_option Suc (localIndex xs n))"

text \<open>
  Modelled from the spec: the resolver's handler for identifiers, which is not among the
  sources. "On each identifier, search local stack innermost-first, else the item
  table (name to declaration index), else the builtin set, else fail." The item table
  and the builtin names are parameters.
\<close>

definition resolveIdent ::
  "string list \<Rightarrow> (string \<rightharpoonup> nat) \<Rightarrow> string list \<Rightarrow> Identifier \<Rightarrow> resolve_error + Identifier" where
  "resolveIdent locals items builtins idn =
     (case localIndex locals (name idn) of
        Some i \<Rightarrow> Inr (idn\<lparr>res := Some (ResLocal i)\<rparr>)
      | None \<Rightarrow>
          (case items (name idn) of
             Some i \<Rightarrow> Inr (idn\<lparr>res := Some (ResItem i)\<rparr>)
           | None \<Rightarrow>
               if name idn \<in> set builtins
               then Inr (idn\<lparr>res := Some (ResBuiltin (name idn))\<rparr>)
               else Inl (UnresolvedName (name idn) (span idn))))"

text \<open>
  Modelled from the spec: the resolver on written types, which is not among the sources.
  The pass overrides no handler for types, so the structural default takes every
  identifier of a type to the handler for identifiers.
\<close>

fun resolveType ::
    "string list \<Rightarrow> (string \<rightharpoonup> nat) \<Rightarrow> string list \<Rightarrow> Type \<Rightarrow> resolve_error + Type"
  and resolveTypes ::
    "string list \<Rightarrow> (string \<rightharpoonup> nat) \<Rightarrow> string list \<Rightarrow> Type list \<Rightarrow> resolve_error + Type list"
where
  "resolveType locals items builtins (TypeIdent v sp ty) =
     (case resolveIdent locals items builtins v of
        Inl err \<Rightarrow> Inl err
      | Inr v' \<Rightarrow> Inr (TypeIdent v' sp ty))"
| "resolveType locals items builtins (TypeList elem sp ty) =
     (case resolveType locals items builtins elem of
        Inl err \<Rightarrow> Inl err
      | Inr elem' \<Rightarrow> Inr (TypeList elem' sp ty))"
| "resolveType locals items builtins (TypeTuple elems sp ty) =
     (case resolveTypes locals items builtins elems of
        Inl err \<Rightarrow> Inl err
      | Inr elems' \<Rightarrow> Inr (TypeTuple elems' sp ty))"
| "resolveTypes locals items builtins [] = Inr []"
| "resolveTypes locals items builtins (t # ts) =
     (case resolveType locals items builtins t of
        Inl err \<Rightarrow> Inl err
      | Inr t' \<Rightarrow>
          (case resolveTypes locals items builtins ts of
             Inl err \<Rightarrow> Inl err
           | Inr ts' \<Rightarrow> Inr (t' # ts')))"

text \<open>
  Modelled from the spec: the resolver on expressions, which is not among the sources.
  "Maintain a stack of local-binding names, pushed on entering a let's continuation
  scope (the RHS of the let is resolved in the outer scope, not including the new
  name) and popped on leaving it." The pass "does not change shape or types"; the
  children are resolved in the order of the structural default, and "resolution of
  one identifier failing aborts the whole pass".
\<close>

fun resolveExpr ::
    "string list \<Rightarrow> (string \<rightharpoonup> nat) \<Rightarrow> string list \<Rightarrow> Expr \<Rightarrow> resolve_error + Expr"
  and resolveExprs ::
    "string list \<Rightarrow> (string \<rightharpoonup> nat) \<Rightarrow> string list \<Rightarrow> Expr list \<Rightarrow> resolve_error + Expr list"
where
  "resolveExpr locals items builtins (ExprEmpty sp ty) = Inr (ExprEmpty sp ty)"
| "resolveExpr locals items builtins (ExprLet n t rhs after sp ty) =
     (case (case t of None \<Rightarrow> Inr None
                    | Some t0 \<Rightarrow> map_sum (\<lambda>err. err) Some (resolveType locals items builtins t0)) of
        Inl err \<Rightarrow> Inl err
      | Inr t' \<Rightarrow>
          (case resolveExpr locals items builtins rhs of
             Inl err \<Rightarrow> Inl err
           | Inr rhs' \<Rightarrow>
               (case resolveExpr (n # locals) items builtins after of
                  Inl err \<Rightarrow> Inl err
                | Inr after' \<Rightarrow> Inr (ExprLet n t' rhs' after' sp ty))))"
| "resolveExpr locals items builtins (ExprBlock exprs sp ty) =
     (case resolveExprs locals items builtins exprs of
        Inl err \<Rightarrow> Inl err
      | Inr exprs' \<Rightarrow> Inr (ExprBlock exprs' sp ty))"
| "resolveExpr locals items builtins (ExprLiteral v sp ty) = Inr (ExprLiteral v sp ty)"
| "resolveExpr locals items builtins (ExprIdent v sp ty) =
     (case resolveIdent locals items builtins v of
        Inl err \<Rightarrow> Inl err
      | Inr v' \<Rightarrow> Inr (ExprIdent v' sp ty))"
| "resolveExpr locals items builtins (ExprBinary k lhs rhs sp ty) =
     (case resolveExpr locals items builtins lhs of
        Inl err \<Rightarrow> Inl err
      | Inr lhs' \<Rightarrow>
          (case resolveExpr locals items builtins rhs of
             Inl err \<Rightarrow> Inl err
           | Inr rhs' \<Rightarrow> Inr (ExprBinary k lhs' rhs' sp ty)))"
| "resolveExpr locals items builtins (ExprUnary k rhs sp ty) =
     (case resolveExpr locals items builtins rhs of
        Inl err \<Rightarrow> Inl err
      | Inr rhs' \<Rightarrow> Inr (ExprUnary k rhs' sp ty))"
| "resolveExpr locals items builtins (ExprCall lhs as sp ty) =
     (case resolveExpr locals items builtins lhs of
        Inl err \<Rightarrow> Inl err
      | Inr lhs' \<Rightarrow>
          (case resolveExprs locals items builtins as of
             Inl err \<Rightarrow> Inl err
           | Inr as' \<Rightarrow> Inr (ExprCall lhs' as' sp ty)))"
| "resolveExpr locals items builtins (ExprIf c th el sp ty) =
     (case resolveExpr locals items builtins c of
        Inl err \<Rightarrow> Inl err
      | Inr c' \<Rightarrow>
          (case resolveExpr locals items builtins th of
             Inl err \<Rightarrow> Inl err
           | Inr th' \<Rightarrow>
               (case el of
                  None \<Rightarrow> Inr (ExprIf c' th' None sp ty)
                | Some e0 \<Rightarrow>
                    (case resolveExpr locals items builtins e0 of
                       Inl err \<Rightarrow> Inl err
                     | Inr e0' \<Rightarrow> Inr (ExprIf c' th' (Some e0') sp ty)))))"
| "resolveExprs locals items builtins [] = Inr []"
| "resolveExprs locals items builtins (e # es) =
     (case resolveExpr locals items builtins e of
        Inl err \<Rightarrow> Inl err
      | Inr e' \<Rightarrow>
          (case resolveExprs locals items builtins es of
             Inl err \<Rightarrow> Inl err
           | Inr es' \<Rightarrow> Inr (e' # es')))"

text \<open>
  What the claim on local indices says of a resolved tree. \<open>enclosing\<close> lists the names
  of the \<open>let\<close>-bindings around a node, the nearest first. A local resolution with the
  index \<open>i\<close> is right for an identifier when the binding at distance \<open>i\<close> binds its
  name and none of the \<open>i\<close> bindings nearer to the use does: \<open>i\<close> is the number of
  bindings between the use and its binder. An identifier has an item or builtin
  resolution only when no enclosing binding has its name.
\<close>

definition ident_local_ok :: "string list \<Rightarrow> Identifier \<Rightarrow> bool" where
  "ident_local_ok enclosing v =
     (case res v of
        None \<Rightarrow> False
      | Some (ResLocal i) \<Rightarrow>
          i < length enclosing \<and> enclosing ! i = name v \<and> name v \<notin> set (take i enclosing)
      | Some (ResItem i) \<Rightarrow> name v \<notin> set enclosing
      | Some (ResBuiltin b) \<Rightarrow> name v \<notin> set enclosing)"

fun local_ok :: "string list \<Rightarrow> Expr \<Rightarrow> bool" where
  "local_ok enclosing (ExprEmpty sp ty) = True"
| "local_ok enclosing (ExprLet n t rhs after sp ty) =
     (local_ok enclosing rhs \<and> local_ok (n # enclosing) after)"
| "local_ok enclosing (ExprBlock exprs sp ty) = list_all (local_ok enclosing) exprs"
| "local_ok enclosing (ExprLiteral v sp ty) = True"
| "local_ok enclosing (ExprIdent v sp ty) = ident_local_ok enclosing v"
| "local_ok enclosing (ExprBinary k lhs rhs sp ty) =
     (local_ok enclosing lhs \<and> local_ok enclosing rhs)"
| "local_ok enclosing (ExprUnary k rhs sp ty) = local_ok enclosing rhs"
| "local_ok enclosing (ExprCall lhs as sp ty) =
     (local_ok enclosing lhs \<and> list_all (local_ok enclosing) as)"
| "local_ok enclosing (ExprIf c th el sp ty) =
     (local_ok enclosing c \<and> local_ok enclosing th
      \<and> (case el of None \<Rightarrow> True | Some e0 \<Rightarrow> local_ok enclosing e0))"

section \<open>The unit type\<close>

text \<open>
  C9. \<open>tyIsUnit\<close> holds of a semantic type exactly when the type is a tuple whose
  element sequence is empty. Unit is no kind of its own: \<open>TyUnit\<close> is that tuple, and
  every semantic type is of one of the seven kinds string, int, bool, list, tuple,
  fn, var.
\<close>

theorem tyIsUnit_iff_empty_tuple:
  "(tyIsUnit ty \<longleftrightarrow> (\<exists>elems. ty = TyTuple elems \<and> elems = []))
   \<and> TyUnit = TyTuple []
   \<and> (ty = TyString \<or> ty = TyInt \<or> ty = TyBool \<or> (\<exists>elem. ty = TyList elem)
      \<or> (\<exists>elems. ty = TyTuple elems) \<or> (\<exists>params returnTy. ty = TyFn params returnTy)
      \<or> (\<exists>index. ty = TyVar index))"
  by (cases ty) (simp_all add: TyUnit_def)

section \<open>Precedence classes of the binary operators\<close>

lemma BINARY_KIND_PREC_CLASS_simps:
  "BINARY_KIND_PREC_CLASS Add = Some 0" "BINARY_KIND_PREC_CLASS Sub = Some 0"
  "BINARY_KIND_PREC_CLASS Mul = Some 0" "BINARY_KIND_PREC_CLASS Div = Some 0"
  "BINARY_KIND_PREC_CLASS And = Some 1" "BINARY_KIND_PREC_CLASS Or = Some 2"
  "BINARY_KIND_PREC_CLASS Lt = Some 3" "BINARY_KIND_PREC_CLASS Gt = Some 4"
  "BINARY_KIND_PREC_CLASS Eq = Some 5" "BINARY_KIND_PREC_CLASS Le = Some 6"
  "BINARY_KIND_PREC_CLASS Ge = Some 7" "BINARY_KIND_PREC_CLASS Ne = Some 8"
  by (simp_all add: BINARY_KIND_PREC_CLASS_def BINARY_KIND_PREC_CLASS_entries_def)

text \<open>
  C2. The claim is that \<open>binaryExprPrecedenceClass\<close> returns the class of each of the
  twelve operators of the table and throws only for an operator outside it. The code
  tests the looked-up class with \<open>!cls\<close>, and the four arithmetic operators have the
  class \<open>0\<close>: for \<open>+\<close>, \<open>-\<close>, \<open>*\<close> and \<open>/\<close>, which are in the table, the function
  throws \<open>Invalid binary kind\<close>. For the other eight it returns the class.
\<close>

theorem binaryExprPrecedenceClass_arith_throws:
  "BINARY_KIND_PREC_CLASS Add = Some 0
   \<and> binaryExprPrecedenceClass Add = Inl (Error ''Invalid binary kind: +'')
   \<and> binaryExprPrecedenceClass Sub = Inl (Error ''Invalid binary kind: -'')
   \<and> binaryExprPrecedenceClass Mul = Inl (Error ''Invalid binary kind: *'')
   \<and> binaryExprPrecedenceClass Div = Inl (Error ''Invalid binary kind: /'')
   \<and> binaryExprPrecedenceClass And = Inr 1
   \<and> binaryExprPrecedenceClass Or = Inr 2
   \<and> binaryExprPrecedenceClass Lt = Inr 3
   \<and> binaryExprPrecedenceClass Gt = Inr 4
   \<and> binaryExprPrecedenceClass Eq = Inr 5
   \<and> binaryExprPrecedenceClass Le = Inr 6
   \<and> binaryExprPrecedenceClass Ge = Inr 7
   \<and> binaryExprPrecedenceClass Ne = Inr 8"
  by (simp add: binaryExprPrecedenceClass_def BINARY_KIND_PREC_CLASS_simps)

text \<open>
  C3, as stated: two operators of one typing class have the same precedence class.
  It fails for the two logical operators: \<open>&\<close> has the class 1 and \<open>|\<close> the class 2.
\<close>

theorem same_typing_class_counterexample:
  "And \<in> set LOGICAL_KINDS \<and> Or \<in> set LOGICAL_KINDS
   \<and> binaryExprPrecedenceClass And = Inr 1 \<and> binaryExprPrecedenceClass Or = Inr 2
   \<and> binaryExprPrecedenceClass And \<noteq> binaryExprPrecedenceClass Or"
  by (simp add: LOGICAL_KINDS_def binaryExprPrecedenceClass_def BINARY_KIND_PREC_CLASS_simps)

text \<open>
  C3, amended. Every operator has a class in the table \<open>BINARY_KIND_PREC_CLASS\<close>, a
  number from 0 to 8. The four arithmetic operators (the term and the factor kinds)
  share the class 0, and each other operator has a class of its own: two operators
  have the same class exactly when they are the same operator or both arithmetic.
  Whenever \<open>binaryExprPrecedenceClass\<close> returns, it returns the class of the table.
  Two classes are always comparable, as the numbers they are.
\<close>

theorem prec_class_table:
  "(\<exists>c. BINARY_KIND_PREC_CLASS k1 = Some c \<and> c \<le> 8)
   \<and> (k1 \<in> set (ARITH_TERM_KINDS @ ARITH_FACTOR_KINDS) \<longrightarrow> BINARY_KIND_PREC_CLASS k1 = Some 0)
   \<and> (BINARY_KIND_PREC_CLASS k1 = BINARY_KIND_PREC_CLASS k2 \<longleftrightarrow>
        k1 = k2 \<or> (k1 \<in> set (ARITH_TERM_KINDS @ ARITH_FACTOR_KINDS)
                   \<and> k2 \<in> set (ARITH_TERM_KINDS @ ARITH_FACTOR_KINDS)))
   \<and> (binaryExprPrecedenceClass k1 = Inr c \<longrightarrow> BINARY_KIND_PREC_CLASS k1 = Some c)
   \<and> (the (BINARY_KIND_PREC_CLASS k1) \<le> the (BINARY_KIND_PREC_CLASS k2)
        \<or> the (BINARY_KIND_PREC_CLASS k2) \<le> the (BINARY_KIND_PREC_CLASS k1))"
proof -
  have arith: "set (ARITH_TERM_KINDS @ ARITH_FACTOR_KINDS) = {Add, Sub, Mul, Div}"
    by (auto simp: ARITH_TERM_KINDS_def ARITH_FACTOR_KINDS_def)
  have bound: "\<exists>c. BINARY_KIND_PREC_CLASS k1 = Some c \<and> c \<le> 8"
    by (cases k1) (simp_all add: BINARY_KIND_PREC_CLASS_simps)
  have zero: "k1 \<in> set (ARITH_TERM_KINDS @ ARITH_FACTOR_KINDS) \<longrightarrow> BINARY_KIND_PREC_CLASS k1 = Some 0"
    unfolding arith by (auto simp: BINARY_KIND_PREC_CLASS_simps)
  have same: "BINARY_KIND_PREC_CLASS k1 = BINARY_KIND_PREC_CLASS k2 \<longleftrightarrow>
        k1 = k2 \<or> (k1 \<in> set (ARITH_TERM_KINDS @ ARITH_FACTOR_KINDS)
                   \<and> k2 \<in> set (ARITH_TERM_KINDS @ ARITH_FACTOR_KINDS))"
    unfolding arith by (cases k1; cases k2; simp add: BINARY_KIND_PREC_CLASS_simps)
  have ret: "binaryExprPrecedenceClass k1 = Inr c \<longrightarrow> BINARY_KIND_PREC_CLASS k1 = Some c"
    by (cases k1) (auto simp: binaryExprPrecedenceClass_def BINARY_KIND_PREC_CLASS_simps)
  have lin: "the (BINARY_KIND_PREC_CLASS k1) \<le> the (BINARY_KIND_PREC_CLASS k2)
        \<or> the (BINARY_KIND_PREC_CLASS k2) \<le> the (BINARY_KIND_PREC_CLASS k1)"
    by (rule linear)
  from bound zero same ret lin show ?thesis by blast
qed

theorem prec_class_table_witness:
  "Add \<in> set (ARITH_TERM_KINDS @ ARITH_FACTOR_KINDS)
   \<and> BINARY_KIND_PREC_CLASS Add = Some 0
   \<and> BINARY_KIND_PREC_CLASS Add = BINARY_KIND_PREC_CLASS Div
   \<and> BINARY_KIND_PREC_CLASS And \<noteq> BINARY_KIND_PREC_CLASS Or
   \<and> binaryExprPrecedenceClass And = Inr 1
   \<and> BINARY_KIND_PREC_CLASS And = Some 1"
proof -
  have a: "Add \<in> set (ARITH_TERM_KINDS @ ARITH_FACTOR_KINDS)"
    by (simp add: ARITH_TERM_KINDS_def)
  have d: "Div \<in> set (ARITH_TERM_KINDS @ ARITH_FACTOR_KINDS)"
    by (simp add: ARITH_FACTOR_KINDS_def)
  have l: "And \<notin> set (ARITH_TERM_KINDS @ ARITH_FACTOR_KINDS)"
    by (simp add: ARITH_TERM_KINDS_def ARITH_FACTOR_KINDS_def)
  have r: "binaryExprPrecedenceClass And = Inr 1"
    by (simp add: binaryExprPrecedenceClass_def BINARY_KIND_PREC_CLASS_simps)
  show ?thesis
    using a d l r prec_class_table [of Add Div 0] prec_class_table [of And Or 1]
    by auto
qed

section \<open>Folding with the default folder\<close>

lemma map_eq_self_iff: "map f xs = xs \<longleftrightarrow> (\<forall>x\<in>set xs. f x = x)"
  by (induction xs) auto

lemma map_option_eq_self_iff:
  "map_option f x = x \<longleftrightarrow> (case x of None \<Rightarrow> True | Some y \<Rightarrow> f y = y)"
  by (cases x) auto

lemma default_type_fixed: "default_type t = t \<longleftrightarrow> type_no_ty t"
  by (induction t) (auto simp: map_eq_self_iff list_all_iff)

lemma default_type_no_ty: "type_no_ty (default_type t)"
  by (induction t) (auto simp: list_all_iff)

lemma default_expr_fixed: "default_expr e = e \<longleftrightarrow> expr_no_ty e"
  by (induction e)
    (auto simp: map_eq_self_iff list_all_iff map_option_eq_self_iff default_type_fixed
      split: option.splits)

lemma default_expr_no_ty: "expr_no_ty (default_expr e)"
  by (induction e) (auto simp: list_all_iff default_type_no_ty split: option.splits)

lemma default_arg_fixed:
  "\<lparr>arg_name = arg_name a, arg_type = default_type (arg_type a), arg_span = arg_span a\<rparr> = a
   \<longleftrightarrow> type_no_ty (arg_type a)"
  by (cases a) (simp add: default_type_fixed)

lemma default_item_fixed: "default_item i = i \<longleftrightarrow> item_no_ty i"
proof (cases i)
  case (ItemFunction node sp n)
  show ?thesis
    unfolding ItemFunction
    by (cases node)
      (auto simp: map_eq_self_iff list_all_iff map_option_eq_self_iff default_type_fixed
        default_expr_fixed default_arg_fixed split: option.splits)
qed

lemma default_item_no_ty: "item_no_ty (default_item i)"
  by (cases i) (auto simp: list_all_iff default_type_no_ty default_expr_no_ty split: option.splits)


text \<open>
  C1, as stated: folding with the default folder returns the input tree, the \<open>ty\<close>
  annotations included. It fails on a function whose body is the literal \<open>1\<close>
  annotated with the type int: the fold returns the literal without the annotation.
\<close>

theorem fold_ast_default_counterexample:
  "fold_ast
     [ItemFunction \<lparr>fn_name = ''f'', args = [],
        body = ExprLiteral (LitInt 1) \<lparr>start = 15, end' = 16\<rparr> (Some TyInt),
        returnType = None\<rparr> \<lparr>start = 0, end' = 16\<rparr> 0]
     DEFAULT_FOLDER
   = [ItemFunction \<lparr>fn_name = ''f'', args = [],
        body = ExprLiteral (LitInt 1) \<lparr>start = 15, end' = 16\<rparr> None,
        returnType = None\<rparr> \<lparr>start = 0, end' = 16\<rparr> 0]
   \<and> fold_ast
     [ItemFunction \<lparr>fn_name = ''f'', args = [],
        body = ExprLiteral (LitInt 1) \<lparr>start = 15, end' = 16\<rparr> (Some TyInt),
        returnType = None\<rparr> \<lparr>start = 0, end' = 16\<rparr> 0]
     DEFAULT_FOLDER
   \<noteq> [ItemFunction \<lparr>fn_name = ''f'', args = [],
        body = ExprLiteral (LitInt 1) \<lparr>start = 15, end' = 16\<rparr> (Some TyInt),
        returnType = None\<rparr> \<lparr>start = 0, end' = 16\<rparr> 0]"
  by (simp add: fold_ast_def DEFAULT_FOLDER_def)

lemma default_type_erase: "default_type t = erase_type t"
  by (induction t) simp_all

lemma default_type_erase_fun: "default_type = erase_type"
  by (rule ext) (rule default_type_erase)

lemma default_expr_erase: "default_expr e = erase_expr e"
  by (induction e) (auto simp: default_type_erase_fun intro!: option.map_cong)

lemma default_expr_erase_fun: "default_expr = erase_expr"
  by (rule ext) (rule default_expr_erase)

lemma default_item_erase: "default_item i = erase_item i"
proof (cases i)
  case (ItemFunction node sp n)
  have a: "\<lparr>arg_name = arg_name a, arg_type = erase_type (arg_type a), arg_span = arg_span a\<rparr>
      = a\<lparr>arg_type := erase_type (arg_type a)\<rparr>" for a
    by (cases a) simp
  show ?thesis
    unfolding ItemFunction
    by (cases node) (simp add: default_type_erase_fun default_expr_erase_fun a)
qed

text \<open>
  C1, amended. Folding with the default folder returns the input tree with every
  \<open>ty\<close> annotation erased: every item, expression and type node is reconstructed
  with all its other fields unchanged (names, spans, ids, operators, literal values,
  identifiers with their resolutions, and the children in their order), and no
  expression or type node of the result has a \<open>ty\<close>. So the fold returns the input
  tree exactly when the input has no annotation, and folding a second time changes
  nothing.
\<close>

theorem fold_ast_default:
  "fold_ast ast DEFAULT_FOLDER = map erase_item ast
   \<and> (fold_ast ast DEFAULT_FOLDER = ast \<longleftrightarrow> list_all item_no_ty ast)
   \<and> list_all item_no_ty (fold_ast ast DEFAULT_FOLDER)
   \<and> fold_ast (fold_ast ast DEFAULT_FOLDER) DEFAULT_FOLDER = fold_ast ast DEFAULT_FOLDER"
proof -
  have h: "\<And>i. item DEFAULT_FOLDER i = default_item i"
    by (simp add: DEFAULT_FOLDER_def)
  have e: "fold_ast ast DEFAULT_FOLDER = map erase_item ast"
    by (simp add: fold_ast_def h default_item_erase)
  have a: "fold_ast ast DEFAULT_FOLDER = ast \<longleftrightarrow> list_all item_no_ty ast"
    by (simp add: fold_ast_def h map_eq_self_iff list_all_iff default_item_fixed)
  have b: "list_all item_no_ty (fold_ast ast DEFAULT_FOLDER)"
    by (simp add: fold_ast_def h list_all_iff default_item_no_ty)
  have c: "fold_ast (fold_ast ast DEFAULT_FOLDER) DEFAULT_FOLDER = fold_ast ast DEFAULT_FOLDER"
    using b by (simp add: fold_ast_def h map_eq_self_iff list_all_iff default_item_fixed)
  from e a b c show ?thesis by blast
qed

theorem fold_ast_default_witness:
  "list_all item_no_ty
     [ItemFunction \<lparr>fn_name = ''f'',
        args = [\<lparr>arg_name = ''x'',
                 arg_type = TypeIdent \<lparr>name = ''Int'', span = \<lparr>start = 14, end' = 17\<rparr>, res = None\<rparr>
                              \<lparr>start = 14, end' = 17\<rparr> None,
                 arg_span = \<lparr>start = 11, end' = 17\<rparr>\<rparr>],
        body = ExprBinary Add
                 (ExprIdent \<lparr>name = ''x'', span = \<lparr>start = 21, end' = 22\<rparr>,
                             res = Some (ResLocal 0)\<rparr> \<lparr>start = 21, end' = 22\<rparr> None)
                 (ExprLiteral (LitInt 1) \<lparr>start = 25, end' = 26\<rparr> None)
                 \<lparr>start = 21, end' = 26\<rparr> None,
        returnType = None\<rparr> \<lparr>start = 0, end' = 26\<rparr> 0]
   \<and> fold_ast
     [ItemFunction \<lparr>fn_name = ''f'',
        args = [\<lparr>arg_name = ''x'',
                 arg_type = TypeIdent \<lparr>name = ''Int'', span = \<lparr>start = 14, end' = 17\<rparr>, res = None\<rparr>
                              \<lparr>start = 14, end' = 17\<rparr> None,
                 arg_span = \<lparr>start = 11, end' = 17\<rparr>\<rparr>],
        body = ExprBinary Add
                 (ExprIdent \<lparr>name = ''x'', span = \<lparr>start = 21, end' = 22\<rparr>,
                             res = Some (ResLocal 0)\<rparr> \<lparr>start = 21, end' = 22\<rparr> None)
                 (ExprLiteral (LitInt 1) \<lparr>start = 25, end' = 26\<rparr> None)
                 \<lparr>start = 21, end' = 26\<rparr> None,
        returnType = None\<rparr> \<lparr>start = 0, end' = 26\<rparr> 0]
     DEFAULT_FOLDER
   = [ItemFunction \<lparr>fn_name = ''f'',
        args = [\<lparr>arg_name = ''x'',
                 arg_type = TypeIdent \<lparr>name = ''Int'', span = \<lparr>start = 14, end' = 17\<rparr>, res = None\<rparr>
                              \<lparr>start = 14, end' = 17\<rparr> None,
                 arg_span = \<lparr>start = 11, end' = 17\<rparr>\<rparr>],
        body = ExprBinary Add
                 (ExprIdent \<lparr>name = ''x'', span = \<lparr>start = 21, end' = 22\<rparr>,
                             res = Some (ResLocal 0)\<rparr> \<lparr>start = 21, end' = 22\<rparr> None)
                 (ExprLiteral (LitInt 1) \<lparr>start = 25, end' = 26\<rparr> None)
                 \<lparr>start = 21, end' = 26\<rparr> None,
        returnType = None\<rparr> \<lparr>start = 0, end' = 26\<rparr> 0]"
proof -
  let ?ast = "[ItemFunction \<lparr>fn_name = ''f'',
        args = [\<lparr>arg_name = ''x'',
                 arg_type = TypeIdent \<lparr>name = ''Int'', span = \<lparr>start = 14, end' = 17\<rparr>, res = None\<rparr>
                              \<lparr>start = 14, end' = 17\<rparr> None,
                 arg_span = \<lparr>start = 11, end' = 17\<rparr>\<rparr>],
        body = ExprBinary Add
                 (ExprIdent \<lparr>name = ''x'', span = \<lparr>start = 21, end' = 22\<rparr>,
                             res = Some (ResLocal 0)\<rparr> \<lparr>start = 21, end' = 22\<rparr> None)
                 (ExprLiteral (LitInt 1) \<lparr>start = 25, end' = 26\<rparr> None)
                 \<lparr>start = 21, end' = 26\<rparr> None,
        returnType = None\<rparr> \<lparr>start = 0, end' = 26\<rparr> 0]"
  have h: "list_all item_no_ty ?ast" by simp
  from fold_ast_default [of ?ast] have "fold_ast ?ast DEFAULT_FOLDER = ?ast \<longleftrightarrow> list_all item_no_ty ?ast"
    by (rule conjunct2 [THEN conjunct1])
  with h have "fold_ast ?ast DEFAULT_FOLDER = ?ast" by (rule iffD2 [rotated])
  with h show ?thesis by (rule conjI)
qed

section \<open>What the structural defaults leave unchanged\<close>

lemma expr_determined:
  assumes "expr_kind a = expr_kind b" "expr_span a = expr_span b" "expr_ty a = expr_ty b"
    "expr_value a = expr_value b" "expr_binaryKind a = expr_binaryKind b"
    "expr_unaryKind a = expr_unaryKind b" "expr_name a = expr_name b"
    "expr_ident a = expr_ident b" "expr_children a = expr_children b"
    "expr_types a = expr_types b"
  shows "a = b"
  using assms by (cases a; cases b) (auto split: option.splits)

lemma args_determined:
  fixes xs ys :: "FunctionArg list"
  shows "map arg_name xs = map arg_name ys \<Longrightarrow> map arg_span xs = map arg_span ys \<Longrightarrow>
   map arg_type xs = map arg_type ys \<Longrightarrow> xs = ys"
proof (induction xs arbitrary: ys)
  case Nil
  then show ?case by simp
next
  case (Cons x xs)
  then obtain y ys' where ys: "ys = y # ys'" by (cases ys) auto
  with Cons.prems have "x = y" by (cases x; cases y) simp
  moreover from Cons.IH [of ys'] Cons.prems ys have "xs = ys'" by simp
  ultimately show ?case using ys by simp
qed

lemma item_determined:
  assumes "item_span a = item_span b" "item_id a = item_id b"
    "fn_name (item_node a) = fn_name (item_node b)"
    "map arg_name (args (item_node a)) = map arg_name (args (item_node b))"
    "map arg_span (args (item_node a)) = map arg_span (args (item_node b))"
    "item_exprs a = item_exprs b" "item_types a = item_types b"
  shows "a = b"
proof (cases a)
  case A: (ItemFunction na spa ia)
  show ?thesis
  proof (cases b)
    case B: (ItemFunction nb spb ib)
    have len: "length (args na) = length (args nb)"
      using assms(4) A B by (metis item_node.simps length_map)
    have ty: "map arg_type (args na) = map arg_type (args nb)"
      and rt: "returnType na = returnType nb"
      using assms(7) len A B by (auto split: option.splits)
    have "args na = args nb"
      using assms(4,5) ty A B by (intro args_determined) simp_all
    with rt assms A B have "na = nb" by (cases na; cases nb) simp
    with assms A B show ?thesis by simp
  qed
qed

lemma superFoldExpr_frame: "expr_frame folder e (superFoldExpr e folder)"
  unfolding expr_frame_def by (cases e) (simp_all split: option.splits)

lemma superFoldItem_frame: "item_frame folder i (superFoldItem i folder)"
  unfolding item_frame_def by (cases i) (simp add: comp_def split: option.splits)

text \<open>
  C8, as stated: the structural defaults leave all fields that are not subtrees
  unchanged and replace the child subtrees only. It fails on the literal \<open>1\<close>
  annotated with the type int, a node without children: for the default folder (as
  for any) \<open>superFoldExpr\<close> returns the literal without the annotation.
\<close>

theorem superFold_frame_counterexample:
  "expr_children (ExprLiteral (LitInt 1) \<lparr>start = 15, end' = 16\<rparr> (Some TyInt)) = []
   \<and> expr_types (ExprLiteral (LitInt 1) \<lparr>start = 15, end' = 16\<rparr> (Some TyInt)) = []
   \<and> superFoldExpr (ExprLiteral (LitInt 1) \<lparr>start = 15, end' = 16\<rparr> (Some TyInt)) DEFAULT_FOLDER
       = ExprLiteral (LitInt 1) \<lparr>start = 15, end' = 16\<rparr> None
   \<and> expr_ty (superFoldExpr (ExprLiteral (LitInt 1) \<lparr>start = 15, end' = 16\<rparr> (Some TyInt))
         DEFAULT_FOLDER)
       \<noteq> expr_ty (ExprLiteral (LitInt 1) \<lparr>start = 15, end' = 16\<rparr> (Some TyInt))
   \<and> superFoldExpr (ExprLiteral (LitInt 1) \<lparr>start = 15, end' = 16\<rparr> (Some TyInt)) DEFAULT_FOLDER
       \<noteq> ExprLiteral (LitInt 1) \<lparr>start = 15, end' = 16\<rparr> (Some TyInt)"
  by simp

text \<open>
  C8, amended. For every folder, \<open>superFoldExpr\<close> returns the node of the same kind
  that has the span, the literal value, the binary and unary operator and the let
  name of its input, whose subtrees are the results of the handlers on the subtrees
  of the input (\<open>expr\<close> on the child expressions, \<open>type\<close> on the written type,
  \<open>ident\<close> on the identifier), and that has no \<open>ty\<close> annotation, whatever the input
  had. \<open>superFoldItem\<close> returns the item that has the span, the id, the function name
  and the argument names and spans of its input, and whose body and written types
  are the results of the handlers. Nothing else changes: the result is the only node
  of which all this holds.
\<close>

theorem superFold_frame:
  "(expr_frame folder e e' \<longleftrightarrow> e' = superFoldExpr e folder)
   \<and> (item_frame folder i i' \<longleftrightarrow> i' = superFoldItem i folder)"
proof (intro conjI iffI)
  assume f: "expr_frame folder e e'"
  have g: "expr_frame folder e (superFoldExpr e folder)"
    by (rule superFoldExpr_frame)
  show "e' = superFoldExpr e folder"
    using f g unfolding expr_frame_def by (intro expr_determined) simp_all
next
  assume "e' = superFoldExpr e folder"
  then show "expr_frame folder e e'"
    by (simp add: superFoldExpr_frame)
next
  assume f: "item_frame folder i i'"
  have g: "item_frame folder i (superFoldItem i folder)"
    by (rule superFoldItem_frame)
  show "i' = superFoldItem i folder"
    using f g unfolding item_frame_def by (intro item_determined) simp_all
next
  assume "i' = superFoldItem i folder"
  then show "item_frame folder i i'"
    by (simp add: superFoldItem_frame)
qed

theorem superFold_frame_witness:
  "expr_frame
     \<lparr>item = (\<lambda>i. i), expr = (\<lambda>e. ExprEmpty (expr_span e) None),
      ident = (\<lambda>d. d\<lparr>res := None\<rparr>), type' = (\<lambda>t. t)\<rparr>
     (ExprBinary Add
        (ExprIdent \<lparr>name = ''x'', span = \<lparr>start = 21, end' = 22\<rparr>, res = Some (ResLocal 0)\<rparr>
           \<lparr>start = 21, end' = 22\<rparr> (Some TyInt))
        (ExprLiteral (LitInt 1) \<lparr>start = 25, end' = 26\<rparr> (Some TyInt))
        \<lparr>start = 21, end' = 26\<rparr> (Some TyInt))
     (ExprBinary Add (ExprEmpty \<lparr>start = 21, end' = 22\<rparr> None)
        (ExprEmpty \<lparr>start = 25, end' = 26\<rparr> None) \<lparr>start = 21, end' = 26\<rparr> None)
   \<and> ExprBinary Add (ExprEmpty \<lparr>start = 21, end' = 22\<rparr> None)
        (ExprEmpty \<lparr>start = 25, end' = 26\<rparr> None) \<lparr>start = 21, end' = 26\<rparr> None
     = superFoldExpr
         (ExprBinary Add
            (ExprIdent \<lparr>name = ''x'', span = \<lparr>start = 21, end' = 22\<rparr>, res = Some (ResLocal 0)\<rparr>
               \<lparr>start = 21, end' = 22\<rparr> (Some TyInt))
            (ExprLiteral (LitInt 1) \<lparr>start = 25, end' = 26\<rparr> (Some TyInt))
            \<lparr>start = 21, end' = 26\<rparr> (Some TyInt))
         \<lparr>item = (\<lambda>i. i), expr = (\<lambda>e. ExprEmpty (expr_span e) None),
          ident = (\<lambda>d. d\<lparr>res := None\<rparr>), type' = (\<lambda>t. t)\<rparr>
   \<and> item_frame
     \<lparr>item = (\<lambda>i. i), expr = (\<lambda>e. ExprEmpty (expr_span e) None),
      ident = (\<lambda>d. d\<lparr>res := None\<rparr>), type' = (\<lambda>t. t)\<rparr>
     (ItemFunction \<lparr>fn_name = ''f'', args = [],
        body = ExprLiteral (LitInt 1) \<lparr>start = 15, end' = 16\<rparr> (Some TyInt),
        returnType = None\<rparr> \<lparr>start = 0, end' = 16\<rparr> 7)
     (ItemFunction \<lparr>fn_name = ''f'', args = [],
        body = ExprEmpty \<lparr>start = 15, end' = 16\<rparr> None,
        returnType = None\<rparr> \<lparr>start = 0, end' = 16\<rparr> 7)
   \<and> ItemFunction \<lparr>fn_name = ''f'', args = [],
        body = ExprEmpty \<lparr>start = 15, end' = 16\<rparr> None,
        returnType = None\<rparr> \<lparr>start = 0, end' = 16\<rparr> 7
     = superFoldItem
         (ItemFunction \<lparr>fn_name = ''f'', args = [],
            body = ExprLiteral (LitInt 1) \<lparr>start = 15, end' = 16\<rparr> (Some TyInt),
            returnType = None\<rparr> \<lparr>start = 0, end' = 16\<rparr> 7)
         \<lparr>item = (\<lambda>i. i), expr = (\<lambda>e. ExprEmpty (expr_span e) None),
          ident = (\<lambda>d. d\<lparr>res := None\<rparr>), type' = (\<lambda>t. t)\<rparr>"
  (is "expr_frame ?F ?e ?e' \<and> ?e' = superFoldExpr ?e ?F
       \<and> item_frame ?F ?i ?i' \<and> ?i' = superFoldItem ?i ?F")
proof -
  have fe: "expr_frame ?F ?e ?e'"
    by (simp add: expr_frame_def)
  have fi: "item_frame ?F ?i ?i'"
    by (simp add: item_frame_def)
  note t = superFold_frame [of ?F ?e ?e' ?i ?i']
  from t have "expr_frame ?F ?e ?e' \<longleftrightarrow> ?e' = superFoldExpr ?e ?F"
    by (rule conjunct1)
  with fe have e: "?e' = superFoldExpr ?e ?F" by (rule iffD1 [rotated])
  from t have "item_frame ?F ?i ?i' \<longleftrightarrow> ?i' = superFoldItem ?i ?F"
    by (rule conjunct2)
  with fi have i: "?i' = superFoldItem ?i ?F" by (rule iffD1 [rotated])
  from fe e fi i show ?thesis by (intro conjI)
qed

section \<open>The printer\<close>

text \<open>
  C4, as stated: every function type renders as \<open>fn(\<close>, the parameter types,
  \<open>): \<close> and the return type, unit-returning ones included. It fails on
  \<open>fn(Int)\<close> returning unit, which renders without a return type.
\<close>

theorem printTy_fn_unit_counterexample:
  "printTy (TyFn [TyInt] (TyTuple [])) = ''fn(Int)''
   \<and> ''fn('' @ join '', '' (map printTy [TyInt]) @ ''): '' @ printTy (TyTuple []) = ''fn(Int): ()''
   \<and> printTy (TyFn [TyInt] (TyTuple []))
       \<noteq> ''fn('' @ join '', '' (map printTy [TyInt]) @ ''): '' @ printTy (TyTuple [])"
  by simp

text \<open>
  C4, amended. \<open>printTy\<close> renders the primitives as \<open>String\<close>, \<open>Int\<close>, \<open>Bool\<close>; a list
  type as its element type in square brackets; a tuple type as its element types,
  separated by a comma and a space, in parentheses; a type variable as \<open>?\<close> and its
  index; a function type as \<open>fn(\<close>, the parameter types separated by a comma and a
  space, and \<open>)\<close>, followed by \<open>: \<close> and the return type only when the return type
  is not unit.
\<close>

theorem printTy_grammar:
  "printTy TyString = ''String''
   \<and> printTy TyInt = ''Int''
   \<and> printTy TyBool = ''Bool''
   \<and> printTy (TyList elem) = ''['' @ printTy elem @ '']''
   \<and> printTy (TyTuple elems) = ''('' @ join '', '' (map printTy elems) @ '')''
   \<and> printTy (TyFn params returnTy) =
        (if returnTy = TyTuple [] then ''fn('' @ join '', '' (map printTy params) @ '')''
         else ''fn('' @ join '', '' (map printTy params) @ ''): '' @ printTy returnTy)
   \<and> printTy (TyVar index) = ''?'' @ showNat index"
proof -
  have unit: "tyIsUnit returnTy \<longleftrightarrow> returnTy = TyTuple []"
    by (cases returnTy) simp_all
  show ?thesis by (simp add: unit)
qed

theorem printTy_grammar_witness:
  "printTy (TyFn [TyInt, TyTuple [TyBool, TyVar 12]] (TyList TyString))
     = ''fn(Int, (Bool, ?12)): [String]''
   \<and> printTy (TyFn [TyList TyInt] (TyTuple [])) = ''fn([Int])''"
proof -
  have v: "showNat 12 = ''12''"
    by (simp add: showNat.simps digit_char_def)
  have t: "printTy (TyTuple [TyBool, TyVar 12]) = ''(Bool, ?12)''"
    using printTy_grammar [of TyBool "[TyBool, TyVar 12]" "[]" TyInt 12] v by simp
  have l: "printTy (TyList TyString) = ''[String]''" "printTy (TyList TyInt) = ''[Int]''"
    using printTy_grammar [of TyString "[]" "[]" TyInt 0]
      printTy_grammar [of TyInt "[]" "[]" TyInt 0] by simp_all
  show ?thesis
    using printTy_grammar [of TyInt "[]" "[TyInt, TyTuple [TyBool, TyVar 12]]" "TyList TyString" 0]
      printTy_grammar [of TyInt "[]" "[TyList TyInt]" "TyTuple []" 0] t l
    by simp
qed

text \<open>
  C7. \<open>printIdent\<close> renders an unresolved identifier as its bare name, and a resolved
  one as the name followed by \<open>#\<close> and the index for a local, \<open>#G\<close> and the index for
  an item, \<open>#B\<close> for a builtin. The rendering is the bare name exactly when no
  resolution is attached.
\<close>

theorem printIdent_suffix:
  "(res idn = None \<longrightarrow> printIdent idn = name idn)
   \<and> (res idn = Some (ResLocal index) \<longrightarrow> printIdent idn = name idn @ ''#'' @ showNat index)
   \<and> (res idn = Some (ResItem index) \<longrightarrow> printIdent idn = name idn @ ''#G'' @ showNat index)
   \<and> (res idn = Some (ResBuiltin b) \<longrightarrow> printIdent idn = name idn @ ''#B'')
   \<and> (printIdent idn = name idn \<longleftrightarrow> res idn = None)"
proof -
  have suffix: "printRes r \<noteq> []" for r
    by (cases r) simp_all
  show ?thesis
    by (cases "res idn") (simp_all add: printIdent_def suffix)
qed

theorem printIdent_suffix_witness:
  "printIdent \<lparr>name = ''a'', span = \<lparr>start = 25, end' = 26\<rparr>, res = Some (ResLocal 1)\<rparr> = ''a#1''
   \<and> printIdent \<lparr>name = ''f'', span = \<lparr>start = 0, end' = 1\<rparr>, res = Some (ResItem 10)\<rparr> = ''f#G10''
   \<and> printIdent \<lparr>name = ''print'', span = \<lparr>start = 0, end' = 5\<rparr>,
        res = Some (ResBuiltin ''print'')\<rparr> = ''print#B''
   \<and> printIdent \<lparr>name = ''x'', span = \<lparr>start = 0, end' = 1\<rparr>, res = None\<rparr> = ''x''"
proof -
  have v: "showNat 1 = ''1''" "showNat 10 = ''10''"
    by (simp_all add: showNat.simps digit_char_def)
  show ?thesis
    using v
      printIdent_suffix [of "\<lparr>name = ''a'', span = \<lparr>start = 25, end' = 26\<rparr>, res = Some (ResLocal 1)\<rparr>" 1 "[]"]
      printIdent_suffix [of "\<lparr>name = ''f'', span = \<lparr>start = 0, end' = 1\<rparr>, res = Some (ResItem 10)\<rparr>" 10 "[]"]
      printIdent_suffix [of "\<lparr>name = ''print'', span = \<lparr>start = 0, end' = 5\<rparr>,
        res = Some (ResBuiltin ''print'')\<rparr>" 0 "''print''"]
      printIdent_suffix [of "\<lparr>name = ''x'', span = \<lparr>start = 0, end' = 1\<rparr>, res = None\<rparr>" 0 "[]"]
    by simp
qed

text \<open>
  C5. \<open>printAst\<close> is a function of the tree alone: the printer reads nothing but its
  argument, so equal trees have equal renderings, character by character.
\<close>

theorem printAst_deterministic:
  "ast1 = ast2 \<Longrightarrow> printAst ast1 = printAst ast2"
  by (rule arg_cong)

theorem printAst_deterministic_witness:
  "printAst
     [ItemFunction \<lparr>fn_name = ''f'',
        args = [\<lparr>arg_name = ''x'',
                 arg_type = TypeIdent \<lparr>name = ''Int'', span = \<lparr>start = 14, end' = 17\<rparr>, res = None\<rparr>
                              \<lparr>start = 14, end' = 17\<rparr> None,
                 arg_span = \<lparr>start = 11, end' = 17\<rparr>\<rparr>],
        body = ExprBinary Add
                 (ExprIdent \<lparr>name = ''x'', span = \<lparr>start = 21, end' = 22\<rparr>,
                             res = Some (ResLocal 0)\<rparr> \<lparr>start = 21, end' = 22\<rparr> None)
                 (ExprLiteral (LitInt 1) \<lparr>start = 25, end' = 26\<rparr> None)
                 \<lparr>start = 21, end' = 26\<rparr> None,
        returnType = None\<rparr> \<lparr>start = 0, end' = 26\<rparr> 0]
   = printAst
     (map (\<lambda>i. i) [ItemFunction \<lparr>fn_name = ''f'',
        args = [\<lparr>arg_name = ''x'',
                 arg_type = TypeIdent \<lparr>name = ''Int'', span = \<lparr>start = 14, end' = 17\<rparr>, res = None\<rparr>
                              \<lparr>start = 14, end' = 17\<rparr> None,
                 arg_span = \<lparr>start = 11, end' = 17\<rparr>\<rparr>],
        body = ExprBinary Add
                 (ExprIdent \<lparr>name = ''x'', span = \<lparr>start = 21, end' = 22\<rparr>,
                             res = Some (ResLocal 0)\<rparr> \<lparr>start = 21, end' = 22\<rparr> None)
                 (ExprLiteral (LitInt 1) \<lparr>start = 25, end' = 26\<rparr> None)
                 \<lparr>start = 21, end' = 26\<rparr> None,
        returnType = None\<rparr> \<lparr>start = 0, end' = 26\<rparr> 0])"
  by (rule printAst_deterministic) simp

section \<open>The spans of the lines\<close>

lemma update_last:
  "ls \<noteq> [] \<Longrightarrow> ls[length ls - 1 := f (ls ! (length ls - 1))] = butlast ls @ [f (last ls)]"
  by (induction ls rule: rev_induct) (auto simp: nth_append)

lemma lines_inv_init: "lines_inv s 0 [\<lparr>start = 0, end' = 0\<rparr>]"
  by (simp add: lines_inv_def)

lemma lines_inv_newline:
  assumes "lines_inv s i ls" "i < length s" "s ! i = CHR 0x0A"
  shows "lines_inv s (Suc i) (ls @ [\<lparr>start = Suc i, end' = Suc i\<rparr>])"
proof -
  from assms(1) have ne: "ls \<noteq> []" and e: "end' (last ls) = i"
    and h: "start (hd ls) = 0"
    and len: "length ls = Suc (length (filter (\<lambda>c. c = CHR 0x0A) (take i s)))"
    and bnd: "\<forall>a\<in>set ls. start a \<le> end' a \<and> end' a \<le> i"
    and srt: "sorted_wrt (\<lambda>a b. end' a < start b) ls"
    and nonl: "\<forall>a\<in>set ls. \<forall>p. start a \<le> p \<and> p < end' a \<longrightarrow> s ! p \<noteq> CHR 0x0A"
    and trm: "\<forall>a\<in>set (butlast ls). end' a < length s \<and> s ! (end' a) = CHR 0x0A"
    and beg: "\<forall>a\<in>set ls. start a = 0 \<or> s ! (start a - 1) = CHR 0x0A"
    and cov: "\<forall>p<i. s ! p \<noteq> CHR 0x0A \<longrightarrow> (\<exists>a\<in>set ls. start a \<le> p \<and> p < end' a)"
    by (simp_all add: lines_inv_def)
  have 1: "length (ls @ [\<lparr>start = Suc i, end' = Suc i\<rparr>])
      = Suc (length (filter (\<lambda>c. c = CHR 0x0A) (take (Suc i) s)))"
    using len assms(2,3) by (simp add: take_Suc_conv_app_nth)
  have 2: "\<forall>a\<in>set (ls @ [\<lparr>start = Suc i, end' = Suc i\<rparr>]). start a \<le> end' a \<and> end' a \<le> Suc i"
    using bnd by auto
  have 3: "sorted_wrt (\<lambda>a b. end' a < start b) (ls @ [\<lparr>start = Suc i, end' = Suc i\<rparr>])"
    using srt bnd by (auto simp: sorted_wrt_append)
  have 4: "\<forall>a\<in>set (ls @ [\<lparr>start = Suc i, end' = Suc i\<rparr>]).
      \<forall>p. start a \<le> p \<and> p < end' a \<longrightarrow> s ! p \<noteq> CHR 0x0A"
    using nonl by auto
  have "set (butlast ls @ [last ls]) = set (butlast ls) \<union> {last ls}"
    by simp
  then have "set ls = set (butlast ls) \<union> {last ls}"
    using ne by simp
  then have 5: "\<forall>a\<in>set (butlast (ls @ [\<lparr>start = Suc i, end' = Suc i\<rparr>])).
      end' a < length s \<and> s ! (end' a) = CHR 0x0A"
    using trm e assms(2,3) by auto
  have 6: "\<forall>a\<in>set (ls @ [\<lparr>start = Suc i, end' = Suc i\<rparr>]).
      start a = 0 \<or> s ! (start a - 1) = CHR 0x0A"
    using beg assms(3) by auto
  have 7: "\<forall>p<Suc i. s ! p \<noteq> CHR 0x0A \<longrightarrow>
      (\<exists>a\<in>set (ls @ [\<lparr>start = Suc i, end' = Suc i\<rparr>]). start a \<le> p \<and> p < end' a)"
    using cov assms(3) by (auto simp: less_Suc_eq)
  have 8: "start (hd (ls @ [\<lparr>start = Suc i, end' = Suc i\<rparr>])) = 0"
    using ne h by (simp add: hd_append)
  have 9: "end' (last (ls @ [\<lparr>start = Suc i, end' = Suc i\<rparr>])) = Suc i"
    by simp
  have 10: "ls @ [\<lparr>start = Suc i, end' = Suc i\<rparr>] \<noteq> []" "Suc i \<le> length s"
    using assms(2) by simp_all
  show ?thesis
    unfolding lines_inv_def
    by (intro conjI 10 9 8 1 2 3 4 5 6 7)
qed

lemma lines_inv_other:
  assumes "lines_inv s i ls" "i < length s" "s ! i \<noteq> CHR 0x0A"
  shows "lines_inv s (Suc i) (butlast ls @ [(last ls)\<lparr>end' := end' (last ls) + 1\<rparr>])"
proof -
  from assms(1) have ne: "ls \<noteq> []" and e: "end' (last ls) = i"
    and h: "start (hd ls) = 0"
    and len: "length ls = Suc (length (filter (\<lambda>c. c = CHR 0x0A) (take i s)))"
    and bnd: "\<forall>a\<in>set ls. start a \<le> end' a \<and> end' a \<le> i"
    and srt: "sorted_wrt (\<lambda>a b. end' a < start b) ls"
    and nonl: "\<forall>a\<in>set ls. \<forall>p. start a \<le> p \<and> p < end' a \<longrightarrow> s ! p \<noteq> CHR 0x0A"
    and trm: "\<forall>a\<in>set (butlast ls). end' a < length s \<and> s ! (end' a) = CHR 0x0A"
    and beg: "\<forall>a\<in>set ls. start a = 0 \<or> s ! (start a - 1) = CHR 0x0A"
    and cov: "\<forall>p<i. s ! p \<noteq> CHR 0x0A \<longrightarrow> (\<exists>a\<in>set ls. start a \<le> p \<and> p < end' a)"
    by (simp_all add: lines_inv_def)
  define bs where "bs = butlast ls"
  define l where "l = last ls"
  define l' where "l' = l\<lparr>end' := end' l + 1\<rparr>"
  have ls: "ls = bs @ [l]"
    using ne by (simp add: bs_def l_def)
  have l': "start l' = start l" "end' l' = Suc i"
    using e by (simp_all add: l'_def l_def)
  have sl: "start l \<le> i"
  proof -
    have "l \<in> set ls" using ne by (simp add: l_def)
    with bnd have "start l \<le> end' l" by blast
    then show ?thesis using e by (simp add: l_def)
  qed
  have 0: "start (hd (bs @ [l'])) = 0"
    using h l' by (cases bs) (simp_all add: ls)
  have 1: "length (bs @ [l']) = Suc (length (filter (\<lambda>c. c = CHR 0x0A) (take (Suc i) s)))"
    using len assms(2,3) by (simp add: take_Suc_conv_app_nth ls)
  have 2: "\<forall>a\<in>set (bs @ [l']). start a \<le> end' a \<and> end' a \<le> Suc i"
    using bnd l' sl by (auto simp: ls)
  have 3: "sorted_wrt (\<lambda>a b. end' a < start b) (bs @ [l'])"
    using srt l' by (auto simp: sorted_wrt_append ls)
  have 4: "\<forall>a\<in>set (bs @ [l']). \<forall>p. start a \<le> p \<and> p < end' a \<longrightarrow> s ! p \<noteq> CHR 0x0A"
  proof (intro ballI allI impI)
    fix a p assume a: "a \<in> set (bs @ [l'])" and p: "start a \<le> p \<and> p < end' a"
    show "s ! p \<noteq> CHR 0x0A"
    proof (cases "a = l'")
      case True
      show ?thesis
      proof (cases "p = i")
        case True
        then show ?thesis using assms(3) by simp
      next
        case False
        with p \<open>a = l'\<close> l' have "start l \<le> p \<and> p < end' l"
          using e l_def by auto
        then show ?thesis using nonl ls by auto
      qed
    next
      case False
      with a have "a \<in> set ls" by (auto simp: ls)
      then show ?thesis using nonl p by blast
    qed
  qed
  have 5: "\<forall>a\<in>set (butlast (bs @ [l'])). end' a < length s \<and> s ! (end' a) = CHR 0x0A"
    using trm by (simp add: bs_def)
  have 6: "\<forall>a\<in>set (bs @ [l']). start a = 0 \<or> s ! (start a - 1) = CHR 0x0A"
    using beg l' by (auto simp: ls)
  have 7: "\<forall>p<Suc i. s ! p \<noteq> CHR 0x0A \<longrightarrow> (\<exists>a\<in>set (bs @ [l']). start a \<le> p \<and> p < end' a)"
  proof (intro allI impI)
    fix p assume p: "p < Suc i" and n: "s ! p \<noteq> CHR 0x0A"
    show "\<exists>a\<in>set (bs @ [l']). start a \<le> p \<and> p < end' a"
    proof (cases "p = i")
      case True
      then have "start l' \<le> p \<and> p < end' l'" using l' sl by simp
      then show ?thesis by auto
    next
      case False
      with p have "p < i" by simp
      with cov n obtain a where a: "a \<in> set ls" "start a \<le> p \<and> p < end' a" by blast
      show ?thesis
      proof (cases "a = l")
        case True
        with a l' e have "start l' \<le> p \<and> p < end' l'" by (simp add: l_def)
        then show ?thesis by auto
      next
        case False
        with a have "a \<in> set (bs @ [l'])" by (auto simp: ls)
        with a show ?thesis by blast
      qed
    qed
  qed
  have 9: "end' (last (bs @ [l'])) = Suc i"
    using l' by simp
  have 10: "bs @ [l'] \<noteq> []" "Suc i \<le> length s"
    using assms(2) by simp_all
  have "lines_inv s (Suc i) (bs @ [l'])"
    unfolding lines_inv_def
    by (intro conjI 10 9 0 1 2 3 4 5 6 7)
  then show ?thesis by (simp add: bs_def l'_def l_def)
qed

lemma lines_loop_inv:
  "lines_inv s i ls \<Longrightarrow> lines_inv s (length s) (lines_loop s i ls)"
proof (induction s i ls rule: lines_loop.induct)
  case (1 input i ls)
  show ?case
  proof (cases "i < length input")
    case False
    with "1.prems" have "i = length input" by (simp add: lines_inv_def)
    with False "1.prems" show ?thesis by (simp add: lines_loop.simps)
  next
    case lt: True
    have ne: "ls \<noteq> []" using "1.prems" by (simp add: lines_inv_def)
    show ?thesis
    proof (cases "input ! i = CHR 0x0A")
      case True
      have "lines_inv input (Suc i) (ls @ [\<lparr>start = Suc i, end' = Suc i\<rparr>])"
        using "1.prems" lt True by (rule lines_inv_newline)
      with "1.IH"(1) [OF lt True] lt True show ?thesis
        by (simp add: lines_loop.simps [of input i ls])
    next
      case False
      have "lines_inv input (Suc i) (butlast ls @ [(last ls)\<lparr>end' := end' (last ls) + 1\<rparr>])"
        using "1.prems" lt False by (rule lines_inv_other)
      then have "lines_inv input (i + 1) (ls[length ls - 1 :=
                      (ls ! (length ls - 1))\<lparr>end' := end' (ls ! (length ls - 1)) + 1\<rparr>])"
        using update_last [OF ne, of "\<lambda>x. x\<lparr>end' := end' x + 1\<rparr>"] by simp
      with "1.IH"(2) [OF lt False] lt False show ?thesis
        by (simp add: lines_loop.simps [of input i ls])
    qed
  qed
qed

lemma lines_inv_final: "lines_inv input (length input) (lines input)"
  unfolding lines_def by (rule lines_loop_inv) (rule lines_inv_init)


text \<open>
  C10. For every input, \<open>lines\<close> returns one span per line: one more span than the
  input has line feeds. Every span has \<open>start \<le> end\<close> within the input, and the spans
  are in increasing order, each ending before the next starts. A span, read as the
  positions from \<open>start\<close> up to but not including \<open>end\<close>, is exactly a line: no
  position in it holds a line feed, it starts at 0 or right after a line feed, and it
  ends at the end of the input or at a line feed. The first span starts at 0 and the
  last ends at the end of the input. Every position of the input that holds no line
  feed lies in exactly one span.
\<close>

theorem lines_spans:
  "length (lines input) = 1 + length (filter (\<lambda>c. c = CHR 0x0A) input)
   \<and> (\<forall>k<length (lines input).
         start (lines input ! k) \<le> end' (lines input ! k)
         \<and> end' (lines input ! k) \<le> length input)
   \<and> (\<forall>j k. j < k \<and> k < length (lines input) \<longrightarrow>
         end' (lines input ! j) < start (lines input ! k))
   \<and> (\<forall>k<length (lines input). \<forall>p.
         start (lines input ! k) \<le> p \<and> p < end' (lines input ! k) \<longrightarrow> input ! p \<noteq> CHR 0x0A)
   \<and> (\<forall>k<length (lines input).
         start (lines input ! k) = 0
         \<or> (0 < start (lines input ! k) \<and> input ! (start (lines input ! k) - 1) = CHR 0x0A))
   \<and> (\<forall>k<length (lines input).
         end' (lines input ! k) = length input
         \<or> (end' (lines input ! k) < length input \<and> input ! (end' (lines input ! k)) = CHR 0x0A))
   \<and> start (lines input ! 0) = 0
   \<and> end' (lines input ! (length (lines input) - 1)) = length input
   \<and> (\<forall>p<length input. input ! p \<noteq> CHR 0x0A \<longrightarrow>
         (\<exists>!k. k < length (lines input)
               \<and> start (lines input ! k) \<le> p \<and> p < end' (lines input ! k)))"
proof -
  define ls where "ls = lines input"
  have inv: "lines_inv input (length input) ls"
    unfolding ls_def by (rule lines_inv_final)
  then have ne: "ls \<noteq> []" and e: "end' (last ls) = length input"
    and h: "start (hd ls) = 0"
    and len: "length ls = Suc (length (filter (\<lambda>c. c = CHR 0x0A) (take (length input) input)))"
    and bnd: "\<forall>a\<in>set ls. start a \<le> end' a \<and> end' a \<le> length input"
    and srt: "sorted_wrt (\<lambda>a b. end' a < start b) ls"
    and nonl: "\<forall>a\<in>set ls. \<forall>p. start a \<le> p \<and> p < end' a \<longrightarrow> input ! p \<noteq> CHR 0x0A"
    and trm: "\<forall>a\<in>set (butlast ls). end' a < length input \<and> input ! (end' a) = CHR 0x0A"
    and beg: "\<forall>a\<in>set ls. start a = 0 \<or> input ! (start a - 1) = CHR 0x0A"
    and cov: "\<forall>p<length input. input ! p \<noteq> CHR 0x0A \<longrightarrow>
                (\<exists>a\<in>set ls. start a \<le> p \<and> p < end' a)"
    by (simp_all add: lines_inv_def)
  have A: "length ls = 1 + length (filter (\<lambda>c. c = CHR 0x0A) input)"
    using len by simp
  have B: "\<forall>k<length ls. start (ls ! k) \<le> end' (ls ! k) \<and> end' (ls ! k) \<le> length input"
    using bnd nth_mem by blast
  have C: "\<forall>j k. j < k \<and> k < length ls \<longrightarrow> end' (ls ! j) < start (ls ! k)"
    using srt by (simp add: sorted_wrt_iff_nth_less)
  have D: "\<forall>k<length ls. \<forall>p. start (ls ! k) \<le> p \<and> p < end' (ls ! k) \<longrightarrow> input ! p \<noteq> CHR 0x0A"
    using nonl nth_mem by blast
  have E: "\<forall>k<length ls. start (ls ! k) = 0
         \<or> (0 < start (ls ! k) \<and> input ! (start (ls ! k) - 1) = CHR 0x0A)"
  proof (intro allI impI)
    fix k assume "k < length ls"
    then have "start (ls ! k) = 0 \<or> input ! (start (ls ! k) - 1) = CHR 0x0A"
      using beg nth_mem by blast
    then show "start (ls ! k) = 0
         \<or> (0 < start (ls ! k) \<and> input ! (start (ls ! k) - 1) = CHR 0x0A)"
      by (cases "start (ls ! k) = 0") simp_all
  qed
  have lastn: "ls ! (length ls - 1) = last ls"
    using ne by (simp add: last_conv_nth)
  have F: "\<forall>k<length ls. end' (ls ! k) = length input
         \<or> (end' (ls ! k) < length input \<and> input ! (end' (ls ! k)) = CHR 0x0A)"
  proof (intro allI impI)
    fix k assume k: "k < length ls"
    show "end' (ls ! k) = length input
         \<or> (end' (ls ! k) < length input \<and> input ! (end' (ls ! k)) = CHR 0x0A)"
    proof (cases "k = length ls - 1")
      case True
      then show ?thesis using lastn e by simp
    next
      case False
      with k have "k < length (butlast ls)" by simp
      then have "butlast ls ! k \<in> set (butlast ls)" by (rule nth_mem)
      moreover have "butlast ls ! k = ls ! k"
        using \<open>k < length (butlast ls)\<close> by (rule nth_butlast)
      ultimately show ?thesis using trm by auto
    qed
  qed
  have H: "start (ls ! 0) = 0"
    using h ne by (simp add: hd_conv_nth)
  have L: "end' (ls ! (length ls - 1)) = length input"
    using lastn e by simp
  have G: "\<forall>p<length input. input ! p \<noteq> CHR 0x0A \<longrightarrow>
         (\<exists>!k. k < length ls \<and> start (ls ! k) \<le> p \<and> p < end' (ls ! k))"
  proof (intro allI impI)
    fix p assume p: "p < length input" and n: "input ! p \<noteq> CHR 0x0A"
    from cov p n obtain a where a: "a \<in> set ls" "start a \<le> p \<and> p < end' a" by blast
    then obtain k where k: "k < length ls" "ls ! k = a"
      by (auto simp: in_set_conv_nth)
    show "\<exists>!k. k < length ls \<and> start (ls ! k) \<le> p \<and> p < end' (ls ! k)"
    proof (rule ex1I [of _ k])
      show "k < length ls \<and> start (ls ! k) \<le> p \<and> p < end' (ls ! k)"
        using k a by simp
    next
      fix j assume j: "j < length ls \<and> start (ls ! j) \<le> p \<and> p < end' (ls ! j)"
      show "j = k"
      proof (rule ccontr)
        assume "j \<noteq> k"
        then consider "j < k" | "k < j" by linarith
        then show False
        proof cases
          case 1
          with C k have "end' (ls ! j) < start (ls ! k)" by blast
          with j k a show False by simp
        next
          case 2
          with C j have "end' (ls ! k) < start (ls ! j)" by blast
          with j k a show False by simp
        qed
      qed
    qed
  qed
  show ?thesis
    unfolding ls_def [symmetric]
    by (intro conjI A B C D E F H L G)
qed

theorem lines_spans_witness:
  "length (lines [CHR ''a'', CHR ''b'', CHR 0x0A, CHR ''c'', CHR 0x0A, CHR 0x0A, CHR ''d'']) = 4
   \<and> (\<exists>!k. k < length (lines [CHR ''a'', CHR ''b'', CHR 0x0A, CHR ''c'', CHR 0x0A, CHR 0x0A, CHR ''d''])
        \<and> start (lines [CHR ''a'', CHR ''b'', CHR 0x0A, CHR ''c'', CHR 0x0A, CHR 0x0A, CHR ''d''] ! k) \<le> 3
        \<and> 3 < end' (lines [CHR ''a'', CHR ''b'', CHR 0x0A, CHR ''c'', CHR 0x0A, CHR 0x0A, CHR ''d''] ! k))"
proof -
  let ?X = "[CHR ''a'', CHR ''b'', CHR 0x0A, CHR ''c'', CHR 0x0A, CHR 0x0A, CHR ''d'']"
  note t = lines_spans [of ?X]
  from t have "length (lines ?X) = 1 + length (filter (\<lambda>c. c = CHR 0x0A) ?X)"
    by (rule conjunct1)
  then have a: "length (lines ?X) = 4" by simp
  from t have g: "\<forall>p<length ?X. ?X ! p \<noteq> CHR 0x0A \<longrightarrow>
         (\<exists>!k. k < length (lines ?X) \<and> start (lines ?X ! k) \<le> p \<and> p < end' (lines ?X ! k))"
    by (elim conjE)
  have b: "\<exists>!k. k < length (lines ?X) \<and> start (lines ?X ! k) \<le> 3 \<and> 3 < end' (lines ?X ! k)"
    by (rule g [rule_format]) simp_all
  from a b show ?thesis by (rule conjI)
qed

section \<open>Local indices\<close>

lemma localIndex_Some:
  "localIndex ls n = Some i \<Longrightarrow> i < length ls \<and> ls ! i = n \<and> n \<notin> set (take i ls)"
  by (induction ls arbitrary: i) (auto split: if_splits)

lemma localIndex_None: "localIndex ls n = None \<longleftrightarrow> n \<notin> set ls"
  by (induction ls) auto

lemma resolveIdent_ok:
  "resolveIdent ls it bs v = Inr v' \<Longrightarrow> ident_local_ok ls v' \<and> name v' = name v"
  using localIndex_Some [of ls "name v"]
  by (auto simp: resolveIdent_def ident_local_ok_def localIndex_None
      split: option.splits if_splits)

lemma resolve_local_ok:
  "(resolveExpr ls it bs e = Inr e' \<longrightarrow> local_ok ls e')"
  "(resolveExprs ls it bs es = Inr es' \<longrightarrow> list_all (local_ok ls) es')"
proof (induction ls it bs e and ls it bs es arbitrary: e' and es'
    rule: resolveExpr_resolveExprs.induct)
  case (5 locals items builtins v sp ty)
  then show ?case by (auto split: sum.splits dest: resolveIdent_ok)
qed (auto split: sum.splits option.splits)

text \<open>
  C6. Whenever the resolver succeeds on an expression, every identifier use in the
  result is resolved, and a use bound by an enclosing \<open>let\<close> has the local index that
  counts the \<open>let\<close>-bindings between the use and its binder, innermost first. On
  an identifier whose name an enclosing \<open>let\<close> binds the resolver does not fail: it
  returns the local resolution with that index. In
  \<open>let a = 1 in let b = 2 in a\<close> the use of \<open>a\<close> has the local index 1, and in
  \<open>let a = 1 in let b = 2 in b\<close> the use of \<open>b\<close> has the local index 0.
\<close>

theorem resolve_de_bruijn:
  "(resolveExpr enclosing items builtins e = Inr e' \<longrightarrow> local_ok enclosing e')
   \<and> (name v \<in> set enclosing \<longrightarrow>
        (\<exists>i. resolveIdent enclosing items builtins v = Inr (v\<lparr>res := Some (ResLocal i)\<rparr>)
             \<and> i < length enclosing \<and> enclosing ! i = name v
             \<and> name v \<notin> set (take i enclosing)))
   \<and> resolveExpr [] items builtins
        (ExprLet ''a'' None (ExprLiteral (LitInt 1) sp None)
           (ExprLet ''b'' None (ExprLiteral (LitInt 2) sp None)
              (ExprIdent \<lparr>name = ''a'', span = sp, res = None\<rparr> sp None) sp None) sp None)
       = Inr (ExprLet ''a'' None (ExprLiteral (LitInt 1) sp None)
           (ExprLet ''b'' None (ExprLiteral (LitInt 2) sp None)
              (ExprIdent \<lparr>name = ''a'', span = sp, res = Some (ResLocal 1)\<rparr> sp None) sp None)
           sp None)
   \<and> resolveExpr [] items builtins
        (ExprLet ''a'' None (ExprLiteral (LitInt 1) sp None)
           (ExprLet ''b'' None (ExprLiteral (LitInt 2) sp None)
              (ExprIdent \<lparr>name = ''b'', span = sp, res = None\<rparr> sp None) sp None) sp None)
       = Inr (ExprLet ''a'' None (ExprLiteral (LitInt 1) sp None)
           (ExprLet ''b'' None (ExprLiteral (LitInt 2) sp None)
              (ExprIdent \<lparr>name = ''b'', span = sp, res = Some (ResLocal 0)\<rparr> sp None) sp None)
           sp None)"
proof (intro conjI)
  show "resolveExpr enclosing items builtins e = Inr e' \<longrightarrow> local_ok enclosing e'"
    by (rule resolve_local_ok)
next
  show "name v \<in> set enclosing \<longrightarrow>
        (\<exists>i. resolveIdent enclosing items builtins v = Inr (v\<lparr>res := Some (ResLocal i)\<rparr>)
             \<and> i < length enclosing \<and> enclosing ! i = name v
             \<and> name v \<notin> set (take i enclosing))"
  proof
    assume "name v \<in> set enclosing"
    then obtain i where i: "localIndex enclosing (name v) = Some i"
      using localIndex_None [of enclosing "name v"] by (cases "localIndex enclosing (name v)") auto
    then have "resolveIdent enclosing items builtins v = Inr (v\<lparr>res := Some (ResLocal i)\<rparr>)"
      by (simp add: resolveIdent_def)
    with localIndex_Some [OF i] show "\<exists>i. resolveIdent enclosing items builtins v
          = Inr (v\<lparr>res := Some (ResLocal i)\<rparr>)
        \<and> i < length enclosing \<and> enclosing ! i = name v \<and> name v \<notin> set (take i enclosing)"
      by blast
  qed
qed (simp_all add: resolveIdent_def)

theorem resolve_de_bruijn_witness:
  "resolveExpr [] (Map.empty(''f'' \<mapsto> 0)) [''print'']
     (ExprLet ''a'' None (ExprLiteral (LitInt 1) \<lparr>start = 8, end' = 9\<rparr> None)
        (ExprLet ''b'' None
           (ExprIdent \<lparr>name = ''a'', span = \<lparr>start = 21, end' = 22\<rparr>, res = None\<rparr>
              \<lparr>start = 21, end' = 22\<rparr> None)
           (ExprLet ''a'' None (ExprLiteral (LitInt 3) \<lparr>start = 34, end' = 35\<rparr> None)
              (ExprCall
                 (ExprIdent \<lparr>name = ''f'', span = \<lparr>start = 39, end' = 40\<rparr>, res = None\<rparr>
                    \<lparr>start = 39, end' = 40\<rparr> None)
                 [ExprIdent \<lparr>name = ''a'', span = \<lparr>start = 41, end' = 42\<rparr>, res = None\<rparr>
                    \<lparr>start = 41, end' = 42\<rparr> None,
                  ExprIdent \<lparr>name = ''b'', span = \<lparr>start = 44, end' = 45\<rparr>, res = None\<rparr>
                    \<lparr>start = 44, end' = 45\<rparr> None]
                 \<lparr>start = 39, end' = 46\<rparr> None)
              \<lparr>start = 26, end' = 46\<rparr> None)
           \<lparr>start = 13, end' = 46\<rparr> None)
        \<lparr>start = 0, end' = 46\<rparr> None)
   = Inr
     (ExprLet ''a'' None (ExprLiteral (LitInt 1) \<lparr>start = 8, end' = 9\<rparr> None)
        (ExprLet ''b'' None
           (ExprIdent \<lparr>name = ''a'', span = \<lparr>start = 21, end' = 22\<rparr>, res = Some (ResLocal 0)\<rparr>
              \<lparr>start = 21, end' = 22\<rparr> None)
           (ExprLet ''a'' None (ExprLiteral (LitInt 3) \<lparr>start = 34, end' = 35\<rparr> None)
              (ExprCall
                 (ExprIdent \<lparr>name = ''f'', span = \<lparr>start = 39, end' = 40\<rparr>, res = Some (ResItem 0)\<rparr>
                    \<lparr>start = 39, end' = 40\<rparr> None)
                 [ExprIdent \<lparr>name = ''a'', span = \<lparr>start = 41, end' = 42\<rparr>, res = Some (ResLocal 0)\<rparr>
                    \<lparr>start = 41, end' = 42\<rparr> None,
                  ExprIdent \<lparr>name = ''b'', span = \<lparr>start = 44, end' = 45\<rparr>, res = Some (ResLocal 1)\<rparr>
                    \<lparr>start = 44, end' = 45\<rparr> None]
                 \<lparr>start = 39, end' = 46\<rparr> None)
              \<lparr>start = 26, end' = 46\<rparr> None)
           \<lparr>start = 13, end' = 46\<rparr> None)
        \<lparr>start = 0, end' = 46\<rparr> None)
   \<and> local_ok []
     (ExprLet ''a'' None (ExprLiteral (LitInt 1) \<lparr>start = 8, end' = 9\<rparr> None)
        (ExprLet ''b'' None
           (ExprIdent \<lparr>name = ''a'', span = \<lparr>start = 21, end' = 22\<rparr>, res = Some (ResLocal 0)\<rparr>
              \<lparr>start = 21, end' = 22\<rparr> None)
           (ExprLet ''a'' None (ExprLiteral (LitInt 3) \<lparr>start = 34, end' = 35\<rparr> None)
              (ExprCall
                 (ExprIdent \<lparr>name = ''f'', span = \<lparr>start = 39, end' = 40\<rparr>, res = Some (ResItem 0)\<rparr>
                    \<lparr>start = 39, end' = 40\<rparr> None)
                 [ExprIdent \<lparr>name = ''a'', span = \<lparr>start = 41, end' = 42\<rparr>, res = Some (ResLocal 0)\<rparr>
                    \<lparr>start = 41, end' = 42\<rparr> None,
                  ExprIdent \<lparr>name = ''b'', span = \<lparr>start = 44, end' = 45\<rparr>, res = Some (ResLocal 1)\<rparr>
                    \<lparr>start = 44, end' = 45\<rparr> None]
                 \<lparr>start = 39, end' = 46\<rparr> None)
              \<lparr>start = 26, end' = 46\<rparr> None)
           \<lparr>start = 13, end' = 46\<rparr> None)
        \<lparr>start = 0, end' = 46\<rparr> None)
   \<and> (\<exists>i. resolveIdent [''b'', ''a''] (Map.empty(''f'' \<mapsto> 0)) [''print'']
             \<lparr>name = ''a'', span = \<lparr>start = 26, end' = 27\<rparr>, res = None\<rparr>
           = Inr (\<lparr>name = ''a'', span = \<lparr>start = 26, end' = 27\<rparr>, res = None\<rparr>
                    \<lparr>res := Some (ResLocal i)\<rparr>)
         \<and> i < length [''b'', ''a''] \<and> [''b'', ''a''] ! i = ''a''
         \<and> ''a'' \<notin> set (take i [''b'', ''a'']))"
  (is "?r = Inr ?e' \<and> local_ok [] ?e' \<and> ?ex")
proof -
  let ?v = "\<lparr>name = ''a'', span = \<lparr>start = 26, end' = 27\<rparr>, res = None\<rparr>"
  have n: "name ?v \<in> set [''b'', ''a'']" by simp
  from resolve_de_bruijn [of "[''b'', ''a'']" "Map.empty(''f'' \<mapsto> 0)" "[''print'']" _ _ ?v]
  have "name ?v \<in> set [''b'', ''a''] \<longrightarrow>
        (\<exists>i. resolveIdent [''b'', ''a''] (Map.empty(''f'' \<mapsto> 0)) [''print''] ?v
               = Inr (?v\<lparr>res := Some (ResLocal i)\<rparr>)
             \<and> i < length [''b'', ''a''] \<and> [''b'', ''a''] ! i = name ?v
             \<and> name ?v \<notin> set (take i [''b'', ''a'']))"
    by (rule conjunct2 [THEN conjunct1])
  then have "\<exists>i. resolveIdent [''b'', ''a''] (Map.empty(''f'' \<mapsto> 0)) [''print''] ?v
               = Inr (?v\<lparr>res := Some (ResLocal i)\<rparr>)
             \<and> i < length [''b'', ''a''] \<and> [''b'', ''a''] ! i = name ?v
             \<and> name ?v \<notin> set (take i [''b'', ''a''])"
    using n by (rule mp)
  then have ex: ?ex by simp
  have r: "?r = Inr ?e'"
    by (simp add: resolveIdent_def)
  from resolve_de_bruijn [of "[]" "Map.empty(''f'' \<mapsto> 0)" "[''print'']" _ ?e' _]
  have "?r = Inr ?e' \<longrightarrow> local_ok [] ?e'"
    by (rule conjunct1)
  then have "local_ok [] ?e'" using r by (rule mp)
  with r ex show ?thesis by blast
qed

end
